theory Spec2Isabelle
  imports Complex_Main "HOL-Library.AList" "HOL-Library.Sublist"
begin

section \<open>Data model (types.ts)\<close>

text \<open>
  The string-literal unions \<open>ThoughtType\<close> and \<open>SessionStatus\<close> are datatypes. The
  interfaces are records; a field \<open>f\<close> of an interface is the record field with the
  interface's prefix (\<open>t_\<close> ThoughtStep, \<open>b_\<close> ThinkingBranch, \<open>s_\<close> ThinkingSession,
  \<open>p_\<close> ThinkingProgress, \<open>i_\<close> AddThoughtInput, \<open>r_\<close> AddThoughtResult,
  \<open>sm_\<close> SessionSummary, \<open>bs_\<close> BranchSummary, \<open>tl_\<close> TimelineEntry), since several
  interfaces share field names. An optional field \<open>f?: T\<close> has type \<open>T option\<close>.
  A \<open>Date\<close> is its \<open>getTime()\<close> value, an \<open>int\<close> of milliseconds. Counts are \<open>nat\<close>;
  numbers supplied by the caller are \<open>int\<close>; \<open>confidence\<close> is only stored, never
  computed with. The optional \<open>metadata\<close> of a session is never written by any
  operation and is left out.
\<close>

datatype ThoughtType =
  Observation | Analysis | Hypothesis | Verification | Refinement
  | Conclusion | Question | Insight | Reflection

datatype SessionStatus = Active | Paused | Completed | Abandoned

record ThoughtStep =
  t_id :: string
  t_stepNumber :: nat
  t_thought :: string
  t_thoughtType :: ThoughtType
  t_isRevision :: bool
  t_revisesStep :: "int option"
  t_branchId :: string
  t_branchFromStep :: "int option"
  t_confidence :: "real option"
  t_tags :: "string list option"
  t_timestamp :: int

record ThinkingBranch =
  b_id :: string
  b_name :: string
  b_parentBranchId :: "string option"
  b_branchFromStepId :: "string option"
  b_createdAt :: int
  b_description :: "string option"

record ThinkingSession =
  s_id :: string
  s_title :: string
  s_problem :: string
  s_thoughts :: "ThoughtStep list"
  s_branches :: "ThinkingBranch list"
  s_activeBranchId :: string
  s_createdAt :: int
  s_updatedAt :: int
  s_status :: SessionStatus

record ThinkingProgress =
  p_sessionId :: string
  p_totalSteps :: nat
  p_currentStep :: nat
  p_branches :: nat
  p_activeBranch :: string
  p_hasMoreThoughts :: bool
  p_summary :: string

record AddThoughtInput =
  i_sessionId :: "string option"
  i_thought :: string
  i_thoughtType :: "ThoughtType option"
  i_isRevision :: "bool option"
  i_revisesStep :: "int option"
  i_branchId :: "string option"
  i_branchFromStep :: "int option"
  i_newBranchName :: "string option"
  i_confidence :: "real option"
  i_tags :: "string list option"
  i_nextThoughtNeeded :: bool

record AddThoughtResult =
  r_sessionId :: string
  r_stepNumber :: nat
  r_totalSteps :: nat
  r_activeBranch :: string
  r_branchCount :: nat
  r_thoughtRecorded :: string
  r_thoughtType :: ThoughtType
  r_isRevision :: bool
  r_nextThoughtNeeded :: bool
  r_progress :: ThinkingProgress

record BranchSummary =
  bs_id :: string
  bs_name :: string
  bs_stepCount :: nat
  bs_thoughtTypes :: "(ThoughtType \<times> nat) list"

record TimelineEntry =
  tl_stepNumber :: nat
  tl_thought :: string
  tl_type :: ThoughtType
  tl_branchName :: string
  tl_isRevision :: bool

record SessionSummary =
  sm_sessionId :: string
  sm_title :: string
  sm_problem :: string
  sm_totalSteps :: nat
  sm_branches :: "BranchSummary list"
  sm_keyInsights :: "string list"
  sm_conclusions :: "string list"
  sm_status :: SessionStatus
  sm_timeline :: "TimelineEntry list"

section \<open>JavaScript string primitives\<close>

text \<open>
  Strings are lists of characters. \<open>toLowerCase\<close> is modelled on ASCII text: the
  letters \<open>A\<close>..\<open>Z\<close> go to \<open>a\<close>..\<open>z\<close> and every other character is kept.
  The empty string is falsy, every other string is truthy.
\<close>

definition toLowerChar :: "char \<Rightarrow> char" where
  "toLowerChar c =
     (let n = (of_char c :: nat) in if 65 \<le> n \<and> n \<le> 90 then char_of (n + 32) else c)"

definition toLowerCase :: "string \<Rightarrow> string" where
  "toLowerCase s = map toLowerChar s"

definition startsWith :: "string \<Rightarrow> string \<Rightarrow> bool" where
  "startsWith s p = (take (length p) s = p)"

fun str_includes :: "string \<Rightarrow> string \<Rightarrow> bool" where
  "str_includes [] sub = (sub = [])"
| "str_includes (c # cs) sub = (startsWith (c # cs) sub \<or> str_includes cs sub)"

text \<open>\<open>s.split(sep)\<close> for a one-character separator: never the empty array.\<close>

fun str_split :: "char \<Rightarrow> string \<Rightarrow> string list" where
  "str_split sep [] = [[]]"
| "str_split sep (c # cs) =
     (if c = sep then [] # str_split sep cs
      else (case str_split sep cs of w # ws \<Rightarrow> (c # w) # ws | [] \<Rightarrow> [[c]]))"

fun str_join :: "string \<Rightarrow> string list \<Rightarrow> string" where
  "str_join sep [] = []"
| "str_join sep [w] = w"
| "str_join sep (w # ws) = w @ sep @ str_join sep ws"

text \<open>A count inside a template literal: its decimal digits.\<close>

fun showNat :: "nat \<Rightarrow> string" where
  "showNat n =
     (if n < 10 then [char_of (48 + n)]
      else showNat (n div 10) @ [char_of (48 + n mod 10)])"

declare showNat.simps [simp del]

text \<open>\<open>a || b\<close> on an optional string, and the truthiness of one.\<close>

fun truthy :: "string option \<Rightarrow> bool" where
  "truthy None = False"
| "truthy (Some s) = (s \<noteq> [])"

fun strOr :: "string option \<Rightarrow> string \<Rightarrow> string" where
  "strOr None d = d"
| "strOr (Some s) d = (if s \<noteq> [] then s else d)"

section \<open>The session manager (ThinkingSessionManager)\<close>

definition DEFAULT_BRANCH_NAME :: string where
  "DEFAULT_BRANCH_NAME = ''main''"

text \<open>
  The \<open>Map\<close> from session ids to sessions keeps insertion order, which \<open>listSessions\<close>
  exposes: it is an association list, \<open>get\<close> is \<^const>\<open>map_of\<close> and \<open>set\<close> is
  \<^const>\<open>AList.update\<close> (replace in place, or append a new key at the end). A session
  object is reached through its key: a write to a field of the session is an update of
  the entry under that key.
\<close>

record ThinkingSessionManager =
  sessions :: "(string \<times> ThinkingSession) list"

definition newManager :: ThinkingSessionManager where
  "newManager = \<lparr>sessions = []\<rparr>"

text \<open>
  \<open>uuidv4()\<close> and \<open>new Date()\<close> read the environment. One call of an operation gets the
  values of its reads in an \<open>Env\<close>, one field for each call site.
\<close>

record Env =
  uuid_session :: string
  uuid_mainBranch :: string
  uuid_newBranch :: string
  uuid_thought :: string
  date_mainBranch :: int
  date_sessionCreated :: int
  date_sessionUpdated :: int
  date_newBranch :: int
  date_thought :: int
  date_touch :: int

definition inferThoughtType :: "string \<Rightarrow> ThoughtType" where
  "inferThoughtType thought =
     (let lower = toLowerCase thought in
      if str_includes lower ''?'' \<or> startsWith lower ''what'' \<or> startsWith lower ''how''
         \<or> startsWith lower ''why'' then Question
      else if str_includes lower ''i notice'' \<or> str_includes lower ''i see''
         \<or> str_includes lower ''observe'' then Observation
      else if str_includes lower ''therefore'' \<or> str_includes lower ''in conclusion''
         \<or> str_includes lower ''finally'' then Conclusion
      else if str_includes lower ''perhaps'' \<or> str_includes lower ''maybe''
         \<or> str_includes lower ''hypothesis'' then Hypothesis
      else if str_includes lower ''verify'' \<or> str_includes lower ''test''
         \<or> str_includes lower ''check'' then Verification
      else if str_includes lower ''insight'' \<or> str_includes lower ''realize''
         \<or> str_includes lower ''aha'' then Insight
      else if str_includes lower ''refine'' \<or> str_includes lower ''improve''
         \<or> str_includes lower ''better'' then Refinement
      else if str_includes lower ''reflect'' \<or> str_includes lower ''thinking about'' then Reflection
      else Analysis)"

definition generateTitle :: "string \<Rightarrow> string" where
  "generateTitle problem =
     (let words = take 6 (str_split CHR '' '' problem) in
      str_join '' '' words @ (if length (str_split CHR '' '' problem) > 6 then ''...'' else ''''))"

definition countType :: "ThoughtType \<Rightarrow> ThoughtStep list \<Rightarrow> nat" where
  "countType ty ts = length (filter (\<lambda>t. t_thoughtType t = ty) ts)"

definition generateQuickSummary :: "ThinkingSession \<Rightarrow> string" where
  "generateQuickSummary session =
     (let ts = s_thoughts session;
          parts =
            (if countType Observation ts \<noteq> 0
             then [showNat (countType Observation ts) @ '' observations''] else [])
            @ (if countType Hypothesis ts \<noteq> 0
               then [showNat (countType Hypothesis ts) @ '' hypotheses''] else [])
            @ (if countType Insight ts \<noteq> 0
               then [showNat (countType Insight ts) @ '' insights''] else [])
            @ (if countType Conclusion ts \<noteq> 0
               then [showNat (countType Conclusion ts) @ '' conclusions''] else [])
      in if length parts > 0 then str_join '', '' parts else ''Starting analysis...'')"

definition newSession :: "Env \<Rightarrow> string \<Rightarrow> string option \<Rightarrow> ThinkingSession" where
  "newSession env sid problem =
     (let mainBranch =
            \<lparr>b_id = uuid_mainBranch env, b_name = DEFAULT_BRANCH_NAME,
             b_parentBranchId = None, b_branchFromStepId = None,
             b_createdAt = date_mainBranch env,
             b_description = Some ''Main thinking branch''\<rparr>
      in \<lparr>s_id = sid,
          s_title = (if truthy problem then generateTitle (strOr problem [])
                     else ''New Thinking Session''),
          s_problem = strOr problem [], s_thoughts = [], s_branches = [mainBranch],
          s_activeBranchId = b_id mainBranch, s_createdAt = date_sessionCreated env,
          s_updatedAt = date_sessionUpdated env, s_status = Active\<rparr>)"

text \<open>\<open>sessionId && this.sessions.has(sessionId)\<close>, then \<open>this.sessions.get(sessionId)\<close>.\<close>

definition knownSession ::
  "string option \<Rightarrow> ThinkingSessionManager \<Rightarrow> ThinkingSession option" where
  "knownSession sessionId m =
     (case sessionId of
        None \<Rightarrow> None
      | Some k \<Rightarrow> if k = [] then None else map_of (sessions m) k)"

text \<open>
  \<open>getOrCreateSession\<close> returns the session object; the model returns the key under
  which the object is stored, its current value, and the manager.
\<close>

definition getOrCreateSession ::
  "Env \<Rightarrow> string option \<Rightarrow> string option \<Rightarrow> ThinkingSessionManager
   \<Rightarrow> string \<times> ThinkingSession \<times> ThinkingSessionManager" where
  "getOrCreateSession env sessionId problem m =
     (case knownSession sessionId m of
        Some session \<Rightarrow> (strOr sessionId [], session, m)
      | None \<Rightarrow>
          (let sid = strOr sessionId (uuid_session env);
               session = newSession env sid problem
           in (sid, session, m\<lparr>sessions := AList.update sid session (sessions m)\<rparr>)))"

definition createBranch ::
  "Env \<Rightarrow> ThinkingSession \<Rightarrow> string \<Rightarrow> int option \<Rightarrow> ThinkingBranch \<times> ThinkingSession" where
  "createBranch env session name branchFromStep =
     (let parentBranch = find (\<lambda>b. b_id b = s_activeBranchId session) (s_branches session);
          branchFromStepId =
            (case branchFromStep of
               None \<Rightarrow> None
             | Some n \<Rightarrow>
                 map_option t_id
                   (find (\<lambda>t. int (t_stepNumber t) = n \<and> t_branchId t = s_activeBranchId session)
                      (s_thoughts session)));
          newBranch =
            \<lparr>b_id = uuid_newBranch env, b_name = name,
             b_parentBranchId = map_option b_id parentBranch,
             b_branchFromStepId = branchFromStepId,
             b_createdAt = date_newBranch env, b_description = None\<rparr>
      in (newBranch, session\<lparr>s_branches := s_branches session @ [newBranch]\<rparr>))"

definition getProgress :: "ThinkingSession \<Rightarrow> ThinkingProgress" where
  "getProgress session =
     (let activeBranch = find (\<lambda>b. b_id b = s_activeBranchId session) (s_branches session);
          branchThoughts =
            filter (\<lambda>t. t_branchId t = s_activeBranchId session) (s_thoughts session);
          conclusions = filter (\<lambda>t. t_thoughtType t = Conclusion) (s_thoughts session)
      in \<lparr>p_sessionId = s_id session, p_totalSteps = length (s_thoughts session),
          p_currentStep = length branchThoughts, p_branches = length (s_branches session),
          p_activeBranch = strOr (map_option b_name activeBranch) DEFAULT_BRANCH_NAME,
          p_hasMoreThoughts = (length conclusions = 0 \<or> s_status session = Active),
          p_summary = generateQuickSummary session\<rparr>)"

text \<open>
  The body of \<open>addThought\<close> after the session is resolved (lines 37 to 65), on the value
  of the session: the result and the session as the body leaves it.
\<close>

definition addThoughtIn ::
  "Env \<Rightarrow> AddThoughtInput \<Rightarrow> ThinkingSession \<Rightarrow> AddThoughtResult \<times> ThinkingSession" where
  "addThoughtIn env input session0 =
     (let activeBranchId0 = strOr (i_branchId input) (s_activeBranchId session0);
          created =
            (if truthy (i_newBranchName input)
             then Some (createBranch env session0 (strOr (i_newBranchName input) [])
                          (i_branchFromStep input))
             else None);
          activeBranchId =
            (case created of Some (newBranch, _) \<Rightarrow> b_id newBranch | None \<Rightarrow> activeBranchId0);
          session1 =
            (case created of
               Some (newBranch, s) \<Rightarrow> s\<lparr>s_activeBranchId := b_id newBranch\<rparr>
             | None \<Rightarrow> session0);
          branchThoughts = filter (\<lambda>t. t_branchId t = activeBranchId) (s_thoughts session1);
          stepNumber = length branchThoughts + 1;
          thoughtStep =
            \<lparr>t_id = uuid_thought env, t_stepNumber = stepNumber, t_thought = i_thought input,
             t_thoughtType =
               (case i_thoughtType input of
                  Some ty \<Rightarrow> ty
                | None \<Rightarrow> inferThoughtType (i_thought input)),
             t_isRevision = (case i_isRevision input of Some b \<Rightarrow> b | None \<Rightarrow> False),
             t_revisesStep = i_revisesStep input, t_branchId = activeBranchId,
             t_branchFromStep = i_branchFromStep input, t_confidence = i_confidence input,
             t_tags = i_tags input, t_timestamp = date_thought env\<rparr>;
          session2 =
            session1\<lparr>s_thoughts := s_thoughts session1 @ [thoughtStep],
                     s_updatedAt := date_touch env\<rparr>;
          session3 =
            (if length (s_thoughts session2) = 1 \<and> s_problem session2 = []
             then session2\<lparr>s_problem := i_thought input,
                           s_title := generateTitle (i_thought input)\<rparr>
             else session2);
          activeBranch = find (\<lambda>b. b_id b = activeBranchId) (s_branches session3)
      in (\<lparr>r_sessionId = s_id session3, r_stepNumber = t_stepNumber thoughtStep,
           r_totalSteps = length (s_thoughts session3),
           r_activeBranch = strOr (map_option b_name activeBranch) DEFAULT_BRANCH_NAME,
           r_branchCount = length (s_branches session3),
           r_thoughtRecorded = t_thought thoughtStep,
           r_thoughtType = t_thoughtType thoughtStep,
           r_isRevision = t_isRevision thoughtStep,
           r_nextThoughtNeeded = i_nextThoughtNeeded input,
           r_progress = getProgress session3\<rparr>,
          session3))"

definition addThought ::
  "Env \<Rightarrow> AddThoughtInput \<Rightarrow> ThinkingSessionManager
   \<Rightarrow> AddThoughtResult \<times> ThinkingSessionManager" where
  "addThought env input m =
     (case getOrCreateSession env (i_sessionId input) (Some (i_thought input)) m of
        (key, session, m1) \<Rightarrow>
          (case addThoughtIn env input session of
             (result, session') \<Rightarrow>
               (result, m1\<lparr>sessions := AList.update key session' (sessions m1)\<rparr>)))"

text \<open>
  \<open>getSummary\<close> sorts \<open>session.thoughts\<close> in place (\<open>Array.prototype.sort\<close>, a stable
  sort) before it builds the timeline, so it returns the manager too. The per-branch
  breakdown is computed before the sort, the insights and conclusions after it.
\<close>

definition tally :: "ThoughtStep list \<Rightarrow> (ThoughtType \<times> nat) list" where
  "tally ts =
     map (\<lambda>ty. (ty, countType ty ts))
       [Observation, Analysis, Hypothesis, Verification, Refinement,
        Conclusion, Question, Insight, Reflection]"

definition branchSummary :: "ThinkingSession \<Rightarrow> ThinkingBranch \<Rightarrow> BranchSummary" where
  "branchSummary session branch =
     (let branchThoughts = filter (\<lambda>t. t_branchId t = b_id branch) (s_thoughts session)
      in \<lparr>bs_id = b_id branch, bs_name = b_name branch,
          bs_stepCount = length branchThoughts, bs_thoughtTypes = tally branchThoughts\<rparr>)"

definition timelineEntry :: "ThinkingSession \<Rightarrow> ThoughtStep \<Rightarrow> TimelineEntry" where
  "timelineEntry session t =
     \<lparr>tl_stepNumber = t_stepNumber t, tl_thought = t_thought t, tl_type = t_thoughtType t,
      tl_branchName =
        strOr (map_option b_name (find (\<lambda>b. b_id b = t_branchId t) (s_branches session)))
          DEFAULT_BRANCH_NAME,
      tl_isRevision = t_isRevision t\<rparr>"

definition getSummary ::
  "string \<Rightarrow> ThinkingSessionManager \<Rightarrow> SessionSummary option \<times> ThinkingSessionManager" where
  "getSummary sessionId m =
     (case map_of (sessions m) sessionId of
        None \<Rightarrow> (None, m)
      | Some session \<Rightarrow>
          (let branchSummaries = map (branchSummary session) (s_branches session);
               session' = session\<lparr>s_thoughts := sort_key t_timestamp (s_thoughts session)\<rparr>;
               timeline = map (timelineEntry session') (s_thoughts session')
           in (Some \<lparr>sm_sessionId = s_id session', sm_title = s_title session',
                      sm_problem = s_problem session',
                      sm_totalSteps = length (s_thoughts session'),
                      sm_branches = branchSummaries,
                      sm_keyInsights =
                        map t_thought
                          (filter (\<lambda>t. t_thoughtType t = Insight) (s_thoughts session')),
                      sm_conclusions =
                        map t_thought
                          (filter (\<lambda>t. t_thoughtType t = Conclusion) (s_thoughts session')),
                      sm_status = s_status session', sm_timeline = timeline\<rparr>,
               m\<lparr>sessions := AList.update sessionId session' (sessions m)\<rparr>)))"

definition updateSessionStatus ::
  "int \<Rightarrow> string \<Rightarrow> SessionStatus \<Rightarrow> ThinkingSessionManager
   \<Rightarrow> bool \<times> ThinkingSessionManager" where
  "updateSessionStatus now sessionId status m =
     (case map_of (sessions m) sessionId of
        None \<Rightarrow> (False, m)
      | Some session \<Rightarrow>
          (True,
           m\<lparr>sessions :=
               AList.update sessionId (session\<lparr>s_status := status, s_updatedAt := now\<rparr>)
                 (sessions m)\<rparr>))"

definition getSession :: "string \<Rightarrow> ThinkingSessionManager \<Rightarrow> ThinkingSession option" where
  "getSession sessionId m = map_of (sessions m) sessionId"



definition switchBranch ::
  "int \<Rightarrow> string \<Rightarrow> string \<Rightarrow> ThinkingSessionManager \<Rightarrow> bool \<times> ThinkingSessionManager" where
  "switchBranch now sessionId branchName m =
     (case map_of (sessions m) sessionId of
        None \<Rightarrow> (False, m)
      | Some session \<Rightarrow>
          (case find (\<lambda>b. b_name b = branchName) (s_branches session) of
             None \<Rightarrow> (False, m)
           | Some branch \<Rightarrow>
               (True,
                m\<lparr>sessions :=
                    AList.update sessionId
                      (session\<lparr>s_activeBranchId := b_id branch, s_updatedAt := now\<rparr>)
                      (sessions m)\<rparr>)))"

subsection \<open>Sequences of engine operations\<close>

text \<open>
  The operations that write to the manager, with the environment's values for each
  call. \<open>createBranch\<close> takes a session object; here it is the session stored under a
  key. \<open>getSession\<close>, \<open>getProgress\<close> and \<open>listSessions\<close> write nothing.
\<close>

datatype Op =
  GetOrCreateSession Env "string option" "string option"
  | AddThought Env AddThoughtInput
  | CreateBranch Env string string "int option"
  | SwitchBranch int string string
  | UpdateSessionStatus int string SessionStatus
  | GetSummary string

fun exec :: "Op \<Rightarrow> ThinkingSessionManager \<Rightarrow> ThinkingSessionManager" where
  "exec (GetOrCreateSession env sessionId problem) m =
     snd (snd (getOrCreateSession env sessionId problem m))"
| "exec (AddThought env input) m = snd (addThought env input m)"
| "exec (CreateBranch env key name branchFromStep) m =
     (case map_of (sessions m) key of
        None \<Rightarrow> m
      | Some session \<Rightarrow>
          m\<lparr>sessions :=
              AList.update key (snd (createBranch env session name branchFromStep))
                (sessions m)\<rparr>)"
| "exec (SwitchBranch now sessionId branchName) m = snd (switchBranch now sessionId branchName m)"
| "exec (UpdateSessionStatus now sessionId status) m =
     snd (updateSessionStatus now sessionId status m)"
| "exec (GetSummary sessionId) m = snd (getSummary sessionId m)"

fun run :: "Op list \<Rightarrow> ThinkingSessionManager \<Rightarrow> ThinkingSessionManager" where
  "run [] m = m"
| "run (op # ops) m = run ops (exec op m)"


text \<open>Consecutive calls of \<open>addThought\<close>: the results in call order, and the manager.\<close>

fun addThoughts ::
  "(Env \<times> AddThoughtInput) list \<Rightarrow> ThinkingSessionManager
   \<Rightarrow> AddThoughtResult list \<times> ThinkingSessionManager" where
  "addThoughts [] m = ([], m)"
| "addThoughts (c # cs) m =
     (case addThought (fst c) (snd c) m of
        (r, m1) \<Rightarrow> (case addThoughts cs m1 of (rs, m2) \<Rightarrow> (r # rs, m2)))"

text \<open>The branch a call of \<open>addThought\<close> routes its thought to, and the thought it appends.\<close>

definition targetBranch :: "Env \<Rightarrow> AddThoughtInput \<Rightarrow> ThinkingSession \<Rightarrow> string" where
  "targetBranch env input session =
     (if truthy (i_newBranchName input) then uuid_newBranch env
      else strOr (i_branchId input) (s_activeBranchId session))"

definition appended :: "Env \<Rightarrow> AddThoughtInput \<Rightarrow> ThinkingSession \<Rightarrow> ThoughtStep" where
  "appended env input session = last (s_thoughts (snd (addThoughtIn env input session)))"

definition onBranch :: "string \<Rightarrow> ThinkingSession \<Rightarrow> ThoughtStep list" where
  "onBranch branchId session = filter (\<lambda>t. t_branchId t = branchId) (s_thoughts session)"

text \<open>
  The two steps of \<open>addThought\<close> around the append: the branch directive, and the
  backfill of \<open>problem\<close> and \<open>title\<close> by the first thought.
\<close>

definition routed :: "Env \<Rightarrow> AddThoughtInput \<Rightarrow> ThinkingSession \<Rightarrow> ThinkingSession" where
  "routed env input s =
     (if truthy (i_newBranchName input)
      then s\<lparr>s_branches := s_branches s @
                [fst (createBranch env s (strOr (i_newBranchName input) []) (i_branchFromStep input))],
             s_activeBranchId := uuid_newBranch env\<rparr>
      else s)"

definition backfill :: "AddThoughtInput \<Rightarrow> ThinkingSession \<Rightarrow> ThinkingSession" where
  "backfill input s =
     (if length (s_thoughts s) = 1 \<and> s_problem s = []
      then s\<lparr>s_problem := i_thought input, s_title := generateTitle (i_thought input)\<rparr>
      else s)"

text \<open>
  A call keeps the branch ids of its session in order when the id generated for a new
  branch is new to the session, and a branch id it supplies is the id of a branch of
  the session.
\<close>

definition callOk :: "ThinkingSession \<Rightarrow> Env \<times> AddThoughtInput \<Rightarrow> bool" where
  "callOk session c =
     (if truthy (i_newBranchName (snd c))
      then uuid_newBranch (fst c) \<notin> set (map b_id (s_branches session))
      else targetBranch (fst c) (snd c) session \<in> set (map b_id (s_branches session)))"

fun callsOk :: "(Env \<times> AddThoughtInput) list \<Rightarrow> ThinkingSessionManager \<Rightarrow> bool" where
  "callsOk [] m = True"
| "callsOk (c # cs) m =
     (callOk (fst (snd (getOrCreateSession (fst c) (i_sessionId (snd c))
                          (Some (i_thought (snd c))) m))) c
      \<and> callsOk cs (snd (addThought (fst c) (snd c) m)))"

text \<open>The session under a key with its status overwritten, everything else kept.\<close>

definition withStatus ::
  "string \<Rightarrow> SessionStatus \<Rightarrow> ThinkingSessionManager \<Rightarrow> ThinkingSessionManager" where
  "withStatus key st m =
     (case map_of (sessions m) key of
        None \<Rightarrow> m
      | Some session \<Rightarrow>
          m\<lparr>sessions := AList.update key (session\<lparr>s_status := st\<rparr>) (sessions m)\<rparr>)"

text \<open>A result of \<open>addThought\<close> without the \<open>hasMoreThoughts\<close> flag of its progress.\<close>

definition maskHasMoreThoughts :: "AddThoughtResult \<Rightarrow> AddThoughtResult" where
  "maskHasMoreThoughts r = r\<lparr>r_progress := (r_progress r)\<lparr>p_hasMoreThoughts := True\<rparr>\<rparr>"

section \<open>Thought classification as the specification words it\<close>

text \<open>
  The ordered rule list of the specification: a rule is a thought type, the keywords
  the lower-cased text may contain and the words it may begin with. The first rule that
  matches wins, and the fallback is \<open>analysis\<close>.
\<close>

definition spec_rules :: "(ThoughtType \<times> string list \<times> string list) list" where
  "spec_rules =
     [(Question, [''?''], [''what'', ''how'', ''why'']),
      (Observation, [''i notice'', ''i see'', ''observe''], []),
      (Conclusion, [''therefore'', ''in conclusion'', ''finally''], []),
      (Hypothesis, [''perhaps'', ''maybe'', ''hypothesis''], []),
      (Verification, [''verify'', ''test'', ''check''], []),
      (Insight, [''insight'', ''realize'', ''aha''], []),
      (Refinement, [''refine'', ''improve'', ''better''], []),
      (Reflection, [''reflect'', ''thinking about''], [])]"

definition spec_rule_matches :: "string \<Rightarrow> ThoughtType \<times> string list \<times> string list \<Rightarrow> bool" where
  "spec_rule_matches lower r =
     (case r of
        (ty, keywords, begins) \<Rightarrow>
          list_ex (\<lambda>w. sublist w lower) keywords \<or> list_ex (\<lambda>w. prefix w lower) begins)"

definition spec_classify :: "string \<Rightarrow> ThoughtType" where
  "spec_classify text =
     (case find (spec_rule_matches (toLowerCase text)) spec_rules of
        Some (ty, keywords, begins) \<Rightarrow> ty
      | None \<Rightarrow> Analysis)"

section \<open>The serverless handler (api/[transport]/route.ts)\<close>

text \<open>
  The handler keeps its own module-level \<open>sessions\<close> map and does not call the session
  manager. Its \<open>inferThoughtType\<close> is the manager's, word for word. A tool's response is
  the object it passes to \<open>JSON.stringify\<close>. \<open>get_thinking_summary\<close> and
  \<open>list_thinking_sessions\<close> only read the map.
\<close>

type_synonym SessionStore = "(string \<times> ThinkingSession) list"

definition route_newSession :: "Env \<Rightarrow> string \<Rightarrow> string option \<Rightarrow> ThinkingSession" where
  "route_newSession env sid problem =
     (let mainBranch =
            \<lparr>b_id = uuid_mainBranch env, b_name = DEFAULT_BRANCH_NAME,
             b_parentBranchId = None, b_branchFromStepId = None,
             b_createdAt = date_mainBranch env,
             b_description = Some ''Main thinking branch''\<rparr>
      in \<lparr>s_id = sid,
          s_title =
            (if truthy problem
             then str_join '' '' (take 6 (str_split CHR '' '' (strOr problem []))) @ ''...''
             else ''New Thinking Session''),
          s_problem = strOr problem [], s_thoughts = [], s_branches = [mainBranch],
          s_activeBranchId = b_id mainBranch, s_createdAt = date_sessionCreated env,
          s_updatedAt = date_sessionUpdated env, s_status = Active\<rparr>)"

definition route_getOrCreateSession ::
  "Env \<Rightarrow> string option \<Rightarrow> string option \<Rightarrow> SessionStore
   \<Rightarrow> string \<times> ThinkingSession \<times> SessionStore" where
  "route_getOrCreateSession env sessionId problem st =
     (case (case sessionId of
              None \<Rightarrow> None
            | Some k \<Rightarrow> if k = [] then None else map_of st k) of
        Some session \<Rightarrow> (strOr sessionId [], session, st)
      | None \<Rightarrow>
          (let sid = strOr sessionId (uuid_session env);
               session = route_newSession env sid problem
           in (sid, session, AList.update sid session st)))"

record SequentialThinkingArgs =
  a_thought :: string
  a_nextThoughtNeeded :: bool
  a_thoughtNumber :: nat
  a_totalThoughts :: nat
  a_isRevision :: "bool option"
  a_revisesThought :: "int option"
  a_branchFromThought :: "int option"
  a_branchId :: "string option"
  a_needsMoreThoughts :: "bool option"
  a_sessionId :: "string option"

record SequentialThinkingResponse =
  q_sessionId :: string
  q_stepNumber :: nat
  q_totalSteps :: nat
  q_activeBranch :: string
  q_thoughtType :: ThoughtType
  q_isRevision :: bool
  q_nextThoughtNeeded :: bool
  q_status :: string

definition sequential_thinking ::
  "Env \<Rightarrow> SequentialThinkingArgs \<Rightarrow> SessionStore
   \<Rightarrow> SequentialThinkingResponse \<times> SessionStore" where
  "sequential_thinking env args st =
     (case route_getOrCreateSession env (a_sessionId args) (Some (a_thought args)) st of
        (key, session, st1) \<Rightarrow>
          (let thoughtStep =
                 \<lparr>t_id = uuid_thought env, t_stepNumber = a_thoughtNumber args,
                  t_thought = a_thought args,
                  t_thoughtType = inferThoughtType (a_thought args),
                  t_isRevision = (case a_isRevision args of Some b \<Rightarrow> b | None \<Rightarrow> False),
                  t_revisesStep = a_revisesThought args,
                  t_branchId = s_activeBranchId session,
                  t_branchFromStep = a_branchFromThought args,
                  t_confidence = None, t_tags = None, t_timestamp = date_thought env\<rparr>;
               session' =
                 session\<lparr>s_thoughts := s_thoughts session @ [thoughtStep],
                         s_updatedAt := date_touch env\<rparr>;
               activeBranch =
                 find (\<lambda>b. b_id b = s_activeBranchId session') (s_branches session')
           in (\<lparr>q_sessionId = s_id session', q_stepNumber = t_stepNumber thoughtStep,
                q_totalSteps = length (s_thoughts session'),
                q_activeBranch = strOr (map_option b_name activeBranch) DEFAULT_BRANCH_NAME,
                q_thoughtType = t_thoughtType thoughtStep,
                q_isRevision = t_isRevision thoughtStep,
                q_nextThoughtNeeded = a_nextThoughtNeeded args,
                q_status = (if a_nextThoughtNeeded args then ''continue'' else ''complete'')\<rparr>,
               AList.update key session' st1)))"

datatype SwitchResponse =
  SwitchSessionNotFound | SwitchBranchNotFound "string list" | SwitchSuccess string

definition switch_thinking_branch ::
  "int \<Rightarrow> string \<Rightarrow> string \<Rightarrow> SessionStore \<Rightarrow> SwitchResponse \<times> SessionStore" where
  "switch_thinking_branch now sessionId branchName st =
     (case map_of st sessionId of
        None \<Rightarrow> (SwitchSessionNotFound, st)
      | Some session \<Rightarrow>
          (case find (\<lambda>b. b_name b = branchName) (s_branches session) of
             None \<Rightarrow> (SwitchBranchNotFound (map b_name (s_branches session)), st)
           | Some branch \<Rightarrow>
               (SwitchSuccess branchName,
                AList.update sessionId
                  (session\<lparr>s_activeBranchId := b_id branch, s_updatedAt := now\<rparr>) st)))"

datatype CompleteResponse =
  CompleteSessionNotFound | CompleteSuccess string nat "string list"

definition complete_thinking_session ::
  "Env \<Rightarrow> string \<Rightarrow> string option \<Rightarrow> SessionStore \<Rightarrow> CompleteResponse \<times> SessionStore" where
  "complete_thinking_session env sessionId finalConclusion st =
     (case map_of st sessionId of
        None \<Rightarrow> (CompleteSessionNotFound, st)
      | Some session \<Rightarrow>
          (let session1 =
                 (if truthy finalConclusion
                  then session\<lparr>s_thoughts :=
                          s_thoughts session @
                          [\<lparr>t_id = uuid_thought env,
                            t_stepNumber = length (s_thoughts session) + 1,
                            t_thought = strOr finalConclusion [],
                            t_thoughtType = Conclusion, t_isRevision = False,
                            t_revisesStep = None, t_branchId = s_activeBranchId session,
                            t_branchFromStep = None, t_confidence = None, t_tags = None,
                            t_timestamp = date_thought env\<rparr>]\<rparr>
                  else session);
               session2 = session1\<lparr>s_status := Completed, s_updatedAt := date_touch env\<rparr>
           in (CompleteSuccess (s_id session2) (length (s_thoughts session2))
                 (map t_thought
                    (filter (\<lambda>t. t_thoughtType t = Conclusion) (s_thoughts session2))),
               AList.update sessionId session2 st)))"

datatype RouteOp =
  SequentialThinking Env SequentialThinkingArgs
  | SwitchThinkingBranch int string string
  | CompleteThinkingSession Env string "string option"

fun route_exec :: "RouteOp \<Rightarrow> SessionStore \<Rightarrow> SessionStore" where
  "route_exec (SequentialThinking env args) st = snd (sequential_thinking env args st)"
| "route_exec (SwitchThinkingBranch now sessionId branchName) st =
     snd (switch_thinking_branch now sessionId branchName st)"
| "route_exec (CompleteThinkingSession env sessionId finalConclusion) st =
     snd (complete_thinking_session env sessionId finalConclusion st)"

fun route_run :: "RouteOp list \<Rightarrow> SessionStore \<Rightarrow> SessionStore" where
  "route_run [] st = st"
| "route_run (op # ops) st = route_run ops (route_exec op st)"

section \<open>Example data\<close>

definition exEnv :: "string \<Rightarrow> string \<Rightarrow> int \<Rightarrow> Env" where
  "exEnv branchUuid thoughtUuid now =
     \<lparr>uuid_session = ''s0'', uuid_mainBranch = ''m1'', uuid_newBranch = branchUuid,
      uuid_thought = thoughtUuid, date_mainBranch = now, date_sessionCreated = now,
      date_sessionUpdated = now, date_newBranch = now, date_thought = now,
      date_touch = now\<rparr>"

definition exInput :: "string \<Rightarrow> string option \<Rightarrow> string option \<Rightarrow> AddThoughtInput" where
  "exInput text branchId newBranchName =
     \<lparr>i_sessionId = Some ''s'', i_thought = text, i_thoughtType = None, i_isRevision = None,
      i_revisesStep = None, i_branchId = branchId, i_branchFromStep = None,
      i_newBranchName = newBranchName, i_confidence = None, i_tags = None,
      i_nextThoughtNeeded = True\<rparr>"

text \<open>A session \<open>s\<close> with the branches \<open>main\<close>, \<open>alt\<close> and a second \<open>alt\<close>, one thought on each.\<close>

definition exOps :: "Op list" where
  "exOps =
     [AddThought (exEnv ''b0'' ''t1'' 1) (exInput ''why'' None None),
      AddThought (exEnv ''b1'' ''t2'' 2) (exInput ''maybe'' None (Some ''alt'')),
      AddThought (exEnv ''b2'' ''t3'' 3) (exInput ''aha'' None (Some ''alt''))]"

definition exManager :: ThinkingSessionManager where
  "exManager = run exOps newManager"

definition exThought :: "string \<Rightarrow> nat \<Rightarrow> string \<Rightarrow> ThoughtType \<Rightarrow> string \<Rightarrow> int \<Rightarrow> ThoughtStep" where
  "exThought uuid n text ty branchId now =
     \<lparr>t_id = uuid, t_stepNumber = n, t_thought = text, t_thoughtType = ty,
      t_isRevision = False, t_revisesStep = None, t_branchId = branchId,
      t_branchFromStep = None, t_confidence = None, t_tags = None, t_timestamp = now\<rparr>"

definition exMain :: ThinkingBranch where
  "exMain =
     \<lparr>b_id = ''m1'', b_name = ''main'', b_parentBranchId = None, b_branchFromStepId = None,
      b_createdAt = 1, b_description = Some ''Main thinking branch''\<rparr>"

definition exAlt1 :: ThinkingBranch where
  "exAlt1 =
     \<lparr>b_id = ''b1'', b_name = ''alt'', b_parentBranchId = Some ''m1'',
      b_branchFromStepId = None, b_createdAt = 2, b_description = None\<rparr>"

definition exAlt2 :: ThinkingBranch where
  "exAlt2 =
     \<lparr>b_id = ''b2'', b_name = ''alt'', b_parentBranchId = Some ''b1'',
      b_branchFromStepId = None, b_createdAt = 3, b_description = None\<rparr>"

text \<open>The session of \<^const>\<open>exManager\<close>, written out.\<close>

definition exSession :: ThinkingSession where
  "exSession =
     \<lparr>s_id = ''s'', s_title = ''why'', s_problem = ''why'',
      s_thoughts =
        [exThought ''t1'' 1 ''why'' Question ''m1'' 1,
         exThought ''t2'' 1 ''maybe'' Hypothesis ''b1'' 2,
         exThought ''t3'' 1 ''aha'' Insight ''b2'' 3],
      s_branches = [exMain, exAlt1, exAlt2], s_activeBranchId = ''b2'',
      s_createdAt = 1, s_updatedAt = 3, s_status = Active\<rparr>"

definition hasBranchNamed :: "string \<Rightarrow> string \<Rightarrow> ThinkingSessionManager \<Rightarrow> bool" where
  "hasBranchNamed sessionId branchName m =
     (case getSession sessionId m of
        None \<Rightarrow> False
      | Some session \<Rightarrow> list_ex (\<lambda>b. b_name b = branchName) (s_branches session))"

section \<open>Properties of sessions\<close>

text \<open>The active branch id of a session is the id of one of its branches.\<close>

definition activeBranchOk :: "ThinkingSession \<Rightarrow> bool" where
  "activeBranchOk s = (s_activeBranchId s \<in> set (map b_id (s_branches s)))"

text \<open>A property of every session the manager holds.\<close>

definition allSessions :: "(ThinkingSession \<Rightarrow> bool) \<Rightarrow> ThinkingSessionManager \<Rightarrow> bool" where
  "allSessions P m = (\<forall>k s. getSession k m = Some s \<longrightarrow> P s)"


text \<open>
  The step numbers, in stored order, of the thoughts on the active branch of a session
  (none when the session does not exist), and a call of \<open>addThought\<close> on a session with
  no branch directive.
\<close>

definition branchSteps :: "string \<Rightarrow> ThinkingSessionManager \<Rightarrow> nat list" where
  "branchSteps sessionId m =
     (case getSession sessionId m of
        None \<Rightarrow> []
      | Some s \<Rightarrow> map t_stepNumber (onBranch (s_activeBranchId s) s))"

definition plainCall :: "string \<Rightarrow> Env \<times> AddThoughtInput \<Rightarrow> bool" where
  "plainCall sessionId c =
     (i_sessionId (snd c) = Some sessionId \<and> \<not> truthy (i_branchId (snd c))
      \<and> \<not> truthy (i_newBranchName (snd c)))"

text \<open>
  The branch ids of a session are pairwise distinct and every thought carries one of
  them; the same for the session under a key, if any; the number of thoughts and of
  branches of the session under a key (of a session yet to be created: none, and the
  main branch); and the counts that a summary reports.
\<close>

definition branchIdsOk :: "ThinkingSession \<Rightarrow> bool" where
  "branchIdsOk s =
     (distinct (map b_id (s_branches s))
      \<and> (\<forall>t\<in>set (s_thoughts s). t_branchId t \<in> set (map b_id (s_branches s))))"

definition sessionOk :: "string \<Rightarrow> ThinkingSessionManager \<Rightarrow> bool" where
  "sessionOk sessionId m =
     (case getSession sessionId m of None \<Rightarrow> True | Some s \<Rightarrow> branchIdsOk s)"

definition thoughtCount :: "string \<Rightarrow> ThinkingSessionManager \<Rightarrow> nat" where
  "thoughtCount sessionId m =
     (case getSession sessionId m of None \<Rightarrow> 0 | Some s \<Rightarrow> length (s_thoughts s))"

definition branchCount :: "string \<Rightarrow> ThinkingSessionManager \<Rightarrow> nat" where
  "branchCount sessionId m =
     (case getSession sessionId m of None \<Rightarrow> 1 | Some s \<Rightarrow> length (s_branches s))"

definition exCalls :: "(Env \<times> AddThoughtInput) list" where
  "exCalls =
     [(exEnv ''b0'' ''t1'' 1, exInput ''a'' None None),
      (exEnv ''b1'' ''t2'' 2, exInput ''b'' None (Some ''alt'')),
      (exEnv ''b2'' ''t3'' 3, exInput ''c'' (Some ''m1'') None)]"

definition summaryCounts :: "SessionSummary \<Rightarrow> nat \<times> nat \<times> nat" where
  "summaryCounts sm =
     (sm_totalSteps sm, length (sm_branches sm), sum_list (map bs_stepCount (sm_branches sm)))"

section \<open>Properties of the handler's sessions\<close>

text \<open>
  A session of the handler has one branch, the active one, and every thought is on it; a
  property of every session the handler's map holds; the thought that completing a
  session with a conclusion is to append; and example data for the handler.
\<close>

definition singleBranch :: "ThinkingSession \<Rightarrow> bool" where
  "singleBranch s =
     (map b_id (s_branches s) = [s_activeBranchId s]
      \<and> (\<forall>t\<in>set (s_thoughts s). t_branchId t = s_activeBranchId s))"

definition allStored :: "(ThinkingSession \<Rightarrow> bool) \<Rightarrow> SessionStore \<Rightarrow> bool" where
  "allStored P st = (\<forall>k s. map_of st k = Some s \<longrightarrow> P s)"

definition conclusionThought :: "Env \<Rightarrow> string \<Rightarrow> ThinkingSession \<Rightarrow> ThoughtStep" where
  "conclusionThought env text s =
     \<lparr>t_id = uuid_thought env,
      t_stepNumber = length (onBranch (s_activeBranchId s) s) + 1,
      t_thought = text, t_thoughtType = Conclusion, t_isRevision = False,
      t_revisesStep = None, t_branchId = s_activeBranchId s, t_branchFromStep = None,
      t_confidence = None, t_tags = None, t_timestamp = date_thought env\<rparr>"

definition exArgs :: "string \<Rightarrow> nat \<Rightarrow> SequentialThinkingArgs" where
  "exArgs text n =
     \<lparr>a_thought = text, a_nextThoughtNeeded = True, a_thoughtNumber = n, a_totalThoughts = 9,
      a_isRevision = None, a_revisesThought = None, a_branchFromThought = None,
      a_branchId = None, a_needsMoreThoughts = None, a_sessionId = Some ''s''\<rparr>"

definition exRouteOps :: "RouteOp list" where
  "exRouteOps =
     [SequentialThinking (exEnv ''b0'' ''t1'' 1) (exArgs ''a'' 1),
      SequentialThinking (exEnv ''b0'' ''t2'' 2) (exArgs ''b'' 7),
      SwitchThinkingBranch 3 ''s'' ''main'']"

definition exRouteSession :: ThinkingSession where
  "exRouteSession =
     \<lparr>s_id = ''s'', s_title = ''a...'', s_problem = ''a'',
      s_thoughts = [exThought ''t1'' 1 ''a'' Analysis ''m1'' 1, exThought ''t2'' 7 ''b'' Analysis ''m1'' 2],
      s_branches = [exMain], s_activeBranchId = ''m1'', s_createdAt = 1, s_updatedAt = 3,
      s_status = Active\<rparr>"

section \<open>The second copy of the handler (on mcp-handler)\<close>

text \<open>
  The repository holds a second serverless handler with the same five tools and its own
  \<open>sessions\<close> map. It differs from route.ts in the keywords of \<open>inferThoughtType\<close>, in the
  title of a session without a problem, in a main branch without description, and in
  leaving \<open>updatedAt\<close> as it is when it switches a branch or completes a session.
\<close>

definition app_inferThoughtType :: "string \<Rightarrow> ThoughtType" where
  "app_inferThoughtType thought =
     (let lower = toLowerCase thought in
      if str_includes lower ''?'' \<or> startsWith lower ''what'' \<or> startsWith lower ''how''
         \<or> startsWith lower ''why'' then Question
      else if str_includes lower ''i notice'' \<or> str_includes lower ''observe'' then Observation
      else if str_includes lower ''therefore'' \<or> str_includes lower ''in conclusion''
        then Conclusion
      else if str_includes lower ''perhaps'' \<or> str_includes lower ''maybe''
         \<or> str_includes lower ''hypothesis'' then Hypothesis
      else if str_includes lower ''verify'' \<or> str_includes lower ''test''
         \<or> str_includes lower ''check'' then Verification
      else if str_includes lower ''insight'' \<or> str_includes lower ''realize'' then Insight
      else if str_includes lower ''refine'' \<or> str_includes lower ''improve'' then Refinement
      else if str_includes lower ''reflect'' then Reflection
      else Analysis)"

definition app_newSession :: "Env \<Rightarrow> string \<Rightarrow> string option \<Rightarrow> ThinkingSession" where
  "app_newSession env sid problem =
     (let mainBranch =
            \<lparr>b_id = uuid_mainBranch env, b_name = DEFAULT_BRANCH_NAME,
             b_parentBranchId = None, b_branchFromStepId = None,
             b_createdAt = date_mainBranch env, b_description = None\<rparr>
      in \<lparr>s_id = sid,
          s_title =
            (if truthy problem
             then str_join '' '' (take 6 (str_split CHR '' '' (strOr problem []))) @ ''...''
             else ''New Session''),
          s_problem = strOr problem [], s_thoughts = [], s_branches = [mainBranch],
          s_activeBranchId = b_id mainBranch, s_createdAt = date_sessionCreated env,
          s_updatedAt = date_sessionUpdated env, s_status = Active\<rparr>)"

definition app_getOrCreateSession ::
  "Env \<Rightarrow> string option \<Rightarrow> string option \<Rightarrow> SessionStore
   \<Rightarrow> string \<times> ThinkingSession \<times> SessionStore" where
  "app_getOrCreateSession env sessionId problem st =
     (case (case sessionId of
              None \<Rightarrow> None
            | Some k \<Rightarrow> if k = [] then None else map_of st k) of
        Some session \<Rightarrow> (strOr sessionId [], session, st)
      | None \<Rightarrow>
          (let sid = strOr sessionId (uuid_session env);
               session = app_newSession env sid problem
           in (sid, session, AList.update sid session st)))"

definition app_sequential_thinking ::
  "Env \<Rightarrow> SequentialThinkingArgs \<Rightarrow> SessionStore
   \<Rightarrow> SequentialThinkingResponse \<times> SessionStore" where
  "app_sequential_thinking env args st =
     (case app_getOrCreateSession env (a_sessionId args) (Some (a_thought args)) st of
        (key, session, st1) \<Rightarrow>
          (let thoughtStep =
                 \<lparr>t_id = uuid_thought env, t_stepNumber = a_thoughtNumber args,
                  t_thought = a_thought args,
                  t_thoughtType = app_inferThoughtType (a_thought args),
                  t_isRevision = (case a_isRevision args of Some b \<Rightarrow> b | None \<Rightarrow> False),
                  t_revisesStep = a_revisesThought args,
                  t_branchId = s_activeBranchId session,
                  t_branchFromStep = a_branchFromThought args,
                  t_confidence = None, t_tags = None, t_timestamp = date_thought env\<rparr>;
               session' =
                 session\<lparr>s_thoughts := s_thoughts session @ [thoughtStep],
                         s_updatedAt := date_touch env\<rparr>;
               activeBranch =
                 find (\<lambda>b. b_id b = s_activeBranchId session') (s_branches session')
           in (\<lparr>q_sessionId = s_id session', q_stepNumber = t_stepNumber thoughtStep,
                q_totalSteps = length (s_thoughts session'),
                q_activeBranch = strOr (map_option b_name activeBranch) DEFAULT_BRANCH_NAME,
                q_thoughtType = t_thoughtType thoughtStep,
                q_isRevision = t_isRevision thoughtStep,
                q_nextThoughtNeeded = a_nextThoughtNeeded args,
                q_status = (if a_nextThoughtNeeded args then ''continue'' else ''complete'')\<rparr>,
               AList.update key session' st1)))"

datatype AppSwitchResponse =
  AppSwitchSessionNotFound | AppSwitchBranchNotFound | AppSwitchSuccess string

definition app_switch_thinking_branch ::
  "string \<Rightarrow> string \<Rightarrow> SessionStore \<Rightarrow> AppSwitchResponse \<times> SessionStore" where
  "app_switch_thinking_branch sessionId branchName st =
     (case map_of st sessionId of
        None \<Rightarrow> (AppSwitchSessionNotFound, st)
      | Some session \<Rightarrow>
          (case find (\<lambda>b. b_name b = branchName) (s_branches session) of
             None \<Rightarrow> (AppSwitchBranchNotFound, st)
           | Some branch \<Rightarrow>
               (AppSwitchSuccess branchName,
                AList.update sessionId (session\<lparr>s_activeBranchId := b_id branch\<rparr>) st)))"

datatype AppCompleteResponse = AppCompleteSessionNotFound | AppCompleteSuccess string nat

definition app_complete_thinking_session ::
  "Env \<Rightarrow> string \<Rightarrow> string option \<Rightarrow> SessionStore \<Rightarrow> AppCompleteResponse \<times> SessionStore" where
  "app_complete_thinking_session env sessionId finalConclusion st =
     (case map_of st sessionId of
        None \<Rightarrow> (AppCompleteSessionNotFound, st)
      | Some session \<Rightarrow>
          (let session1 =
                 (if truthy finalConclusion
                  then session\<lparr>s_thoughts :=
                          s_thoughts session @
                          [\<lparr>t_id = uuid_thought env,
                            t_stepNumber = length (s_thoughts session) + 1,
                            t_thought = strOr finalConclusion [],
                            t_thoughtType = Conclusion, t_isRevision = False,
                            t_revisesStep = None, t_branchId = s_activeBranchId session,
                            t_branchFromStep = None, t_confidence = None, t_tags = None,
                            t_timestamp = date_thought env\<rparr>]\<rparr>
                  else session);
               session2 = session1\<lparr>s_status := Completed\<rparr>
           in (AppCompleteSuccess (s_id session2) (length (s_thoughts session2)),
               AList.update sessionId session2 st)))"

datatype AppOp =
  AppSequentialThinking Env SequentialThinkingArgs
  | AppSwitchThinkingBranch string string
  | AppCompleteThinkingSession Env string "string option"

fun app_exec :: "AppOp \<Rightarrow> SessionStore \<Rightarrow> SessionStore" where
  "app_exec (AppSequentialThinking env args) st = snd (app_sequential_thinking env args st)"
| "app_exec (AppSwitchThinkingBranch sessionId branchName) st =
     snd (app_switch_thinking_branch sessionId branchName st)"
| "app_exec (AppCompleteThinkingSession env sessionId finalConclusion) st =
     snd (app_complete_thinking_session env sessionId finalConclusion st)"

fun app_run :: "AppOp list \<Rightarrow> SessionStore \<Rightarrow> SessionStore" where
  "app_run [] st = st"
| "app_run (op # ops) st = app_run ops (app_exec op st)"


section \<open>Helper lemmas\<close>


lemma getSession_update [simp]:
  "getSession k (m\<lparr>sessions := AList.update k' v (sessions m)\<rparr>) =
     (if k = k' then Some v else getSession k m)"
  by (simp add: getSession_def AList.update_conv')

lemma createBranch_fst_id: "b_id (fst (createBranch env s n f)) = uuid_newBranch env"
  by (simp add: createBranch_def Let_def)

lemma createBranch_fst_name: "b_name (fst (createBranch env s n f)) = n"
  by (simp add: createBranch_def Let_def)

lemma createBranch_snd:
  "snd (createBranch env s n f) = s\<lparr>s_branches := s_branches s @ [fst (createBranch env s n f)]\<rparr>"
  by (simp add: createBranch_def Let_def)

lemma addThoughtIn_thoughts:
  "s_thoughts (snd (addThoughtIn env input s)) = s_thoughts s @ [appended env input s]"
  by (simp add: appended_def addThoughtIn_def Let_def createBranch_def)

lemma appended_branchId: "t_branchId (appended env input s) = targetBranch env input s"
  by (simp add: appended_def addThoughtIn_def Let_def targetBranch_def createBranch_def)

lemma appended_stepNumber:
  "t_stepNumber (appended env input s) = length (onBranch (targetBranch env input s) s) + 1"
  by (simp add: appended_def addThoughtIn_def Let_def targetBranch_def createBranch_def onBranch_def)

lemma appended_thoughtType:
  "t_thoughtType (appended env input s) =
     (case i_thoughtType input of Some ty \<Rightarrow> ty | None \<Rightarrow> inferThoughtType (i_thought input))"
  by (simp add: appended_def addThoughtIn_def Let_def createBranch_def)


lemma addThoughtIn_activeBranchId:
  "s_activeBranchId (snd (addThoughtIn env input s)) =
     (if truthy (i_newBranchName input) then uuid_newBranch env else s_activeBranchId s)"
  by (simp add: addThoughtIn_def Let_def createBranch_def)

lemma addThoughtIn_branches:
  "s_branches (snd (addThoughtIn env input s)) =
     (if truthy (i_newBranchName input)
      then s_branches s @
           [fst (createBranch env s (strOr (i_newBranchName input) []) (i_branchFromStep input))]
      else s_branches s)"
  by (simp add: addThoughtIn_def Let_def createBranch_def)

lemma addThoughtIn_status: "s_status (snd (addThoughtIn env input s)) = s_status s"
  by (simp add: addThoughtIn_def Let_def createBranch_def)

lemma addThoughtIn_stepNumber:
  "r_stepNumber (fst (addThoughtIn env input s)) = t_stepNumber (appended env input s)"
  by (simp add: appended_def addThoughtIn_def Let_def createBranch_def)

text \<open>What \<open>addThought\<close> leaves under the key of its session, and under every other key.\<close>

lemma addThought_state:
  assumes "getOrCreateSession env (i_sessionId input) (Some (i_thought input)) m = (key, s0, m1)"
  shows "snd (addThought env input m) =
           m1\<lparr>sessions := AList.update key (snd (addThoughtIn env input s0)) (sessions m1)\<rparr>"
    and "fst (addThought env input m) = fst (addThoughtIn env input s0)"
  using assms by (simp_all add: addThought_def split: prod.splits)

lemma getOrCreateSession_known:
  assumes "knownSession sessionId m = Some s"
  shows "getOrCreateSession env sessionId problem m = (strOr sessionId [], s, m)"
  using assms by (simp add: getOrCreateSession_def)

lemma knownSession_Some:
  "sid \<noteq> [] \<Longrightarrow> knownSession (Some sid) m = getSession sid m"
  by (simp add: knownSession_def getSession_def)

lemma getOrCreateSession_new:
  assumes "knownSession sessionId m = None"
  shows "getOrCreateSession env sessionId problem m =
           (strOr sessionId (uuid_session env),
            newSession env (strOr sessionId (uuid_session env)) problem,
            m\<lparr>sessions := AList.update (strOr sessionId (uuid_session env))
                 (newSession env (strOr sessionId (uuid_session env)) problem) (sessions m)\<rparr>)"
  using assms by (simp add: getOrCreateSession_def Let_def)

lemma getOrCreateSession_stored:
  assumes "getOrCreateSession env sessionId problem m = (key, s0, m1)"
  shows "getSession key m1 = Some s0"
proof (cases "knownSession sessionId m")
  case None
  with assms show ?thesis
    by (auto simp: getOrCreateSession_new getSession_def AList.update_conv')
next
  case (Some s)
  with assms show ?thesis
    by (auto simp: getOrCreateSession_known knownSession_def getSession_def split: option.splits if_splits)
qed

lemma exManager_eq: "exManager = \<lparr>sessions = [(''s'', exSession)]\<rparr>"
  by code_simp

lemma exSession_stored: "getSession ''s'' exManager = Some exSession"
  by (simp add: exManager_eq getSession_def)

lemma find_Some_split:
  "find P xs = Some x \<Longrightarrow> \<exists>pre post. xs = pre @ x # post \<and> P x \<and> (\<forall>y\<in>set pre. \<not> P y)"
proof (induction xs)
  case Nil
  then show ?case by simp
next
  case (Cons a xs)
  show ?case
  proof (cases "P a")
    case True
    with Cons.prems have "a = x" by simp
    with True have "a # xs = [] @ x # xs \<and> P x \<and> (\<forall>y\<in>set []. \<not> P y)" by simp
    then show ?thesis by blast
  next
    case False
    with Cons obtain pre post where "xs = pre @ x # post" "P x" "\<forall>y\<in>set pre. \<not> P y"
      by auto
    with False have "a # xs = (a # pre) @ x # post \<and> P x \<and> (\<forall>y\<in>set (a # pre). \<not> P y)"
      by simp
    then show ?thesis by blast
  qed
qed

lemma find_first:
  "\<forall>y\<in>set pre. \<not> P y \<Longrightarrow> P x \<Longrightarrow> find P (pre @ x # post) = Some x"
  by (induction pre) auto

lemma list_ex_find: "list_ex P xs \<longleftrightarrow> find P xs \<noteq> None"
  by (induction xs) auto

section \<open>Branch switch\<close>

text \<open>
  C6: \<open>switchBranch\<close> on a session that exists and has a branch whose name is the target
  name sets such a branch active, sets \<open>updatedAt\<close>, writes nothing else and returns
  true; when the session does not exist or has no branch of that name it returns false
  and the manager is unchanged.
\<close>

theorem switchBranch_success_or_untouched:
  "(hasBranchNamed sessionId branchName m \<longrightarrow>
      (\<exists>session branch.
          getSession sessionId m = Some session \<and> branch \<in> set (s_branches session)
          \<and> b_name branch = branchName
          \<and> switchBranch now sessionId branchName m =
              (True,
               m\<lparr>sessions :=
                   AList.update sessionId
                     (session\<lparr>s_activeBranchId := b_id branch, s_updatedAt := now\<rparr>)
                     (sessions m)\<rparr>)))
   \<and> (\<not> hasBranchNamed sessionId branchName m \<longrightarrow>
        switchBranch now sessionId branchName m = (False, m))"
proof (intro conjI impI)
  assume h: "hasBranchNamed sessionId branchName m"
  then obtain session where s: "getSession sessionId m = Some session"
    and ex: "list_ex (\<lambda>b. b_name b = branchName) (s_branches session)"
    by (auto simp: hasBranchNamed_def split: option.splits)
  from ex obtain branch where f: "find (\<lambda>b. b_name b = branchName) (s_branches session) = Some branch"
    by (auto simp: list_ex_find)
  then have "branch \<in> set (s_branches session)" "b_name branch = branchName"
    by (auto dest: find_Some_split)
  with s f show "\<exists>session branch.
          getSession sessionId m = Some session \<and> branch \<in> set (s_branches session)
          \<and> b_name branch = branchName
          \<and> switchBranch now sessionId branchName m =
              (True,
               m\<lparr>sessions :=
                   AList.update sessionId
                     (session\<lparr>s_activeBranchId := b_id branch, s_updatedAt := now\<rparr>)
                     (sessions m)\<rparr>)"
    by (auto simp: switchBranch_def getSession_def)
next
  assume "\<not> hasBranchNamed sessionId branchName m"
  then show "switchBranch now sessionId branchName m = (False, m)"
    by (auto simp: hasBranchNamed_def switchBranch_def getSession_def list_ex_find split: option.splits)
qed

theorem switchBranch_success_or_untouched_witness:
  "hasBranchNamed ''s'' ''alt'' exManager
   \<and> fst (switchBranch 5 ''s'' ''alt'' exManager) = True
   \<and> \<not> hasBranchNamed ''s'' ''zzz'' exManager
   \<and> switchBranch 5 ''s'' ''zzz'' exManager = (False, exManager)
   \<and> \<not> hasBranchNamed ''q'' ''main'' exManager
   \<and> switchBranch 5 ''q'' ''main'' exManager = (False, exManager)"
proof -
  have h1: "hasBranchNamed ''s'' ''alt'' exManager" by code_simp
  have h2: "\<not> hasBranchNamed ''s'' ''zzz'' exManager" by code_simp
  have h3: "\<not> hasBranchNamed ''q'' ''main'' exManager" by code_simp
  from h1 switchBranch_success_or_untouched [of "''s''" "''alt''" exManager 5]
  have c1: "fst (switchBranch 5 ''s'' ''alt'' exManager) = True" by auto
  from h2 switchBranch_success_or_untouched [of "''s''" "''zzz''" exManager 5]
  have c2: "switchBranch 5 ''s'' ''zzz'' exManager = (False, exManager)" by blast
  from h3 switchBranch_success_or_untouched [of "''q''" "''main''" exManager 5]
  have c3: "switchBranch 5 ''q'' ''main'' exManager = (False, exManager)" by blast
  from h1 h2 h3 c1 c2 c3 show ?thesis by blast
qed

text \<open>
  In \<^const>\<open>exManager\<close> the branches \<open>b1\<close> and \<open>b2\<close> are both named \<open>alt\<close>, and \<open>b2\<close>
  was created last; \<open>switchBranch\<close> to \<open>alt\<close> sets \<open>b1\<close> active.
\<close>

theorem switchBranch_last_created_counterexample:
  "map_option (\<lambda>s. map (\<lambda>b. (b_id b, b_name b)) (s_branches s)) (getSession ''s'' exManager)
     = Some [(''m1'', ''main''), (''b1'', ''alt''), (''b2'', ''alt'')]
   \<and> map_option s_activeBranchId (getSession ''s'' (snd (switchBranch 5 ''s'' ''alt'' exManager)))
     = Some ''b1''
   \<and> map_option s_activeBranchId (getSession ''s'' (snd (switchBranch 5 ''s'' ''alt'' exManager)))
     \<noteq> Some ''b2''"
  by code_simp

text \<open>
  C8 (amended): when several branches of a session have the target name, \<open>switchBranch\<close>
  sets the first created of them active: the branch with that name before which, in
  creation order, no branch has the name.
\<close>

theorem switchBranch_first_created_wins:
  assumes "getSession sessionId m = Some session"
    and "s_branches session = earlier @ branch # later"
    and "b_name branch = branchName"
    and "\<forall>b\<in>set earlier. b_name b \<noteq> branchName"
  shows "fst (switchBranch now sessionId branchName m) = True
         \<and> getSession sessionId (snd (switchBranch now sessionId branchName m)) =
             Some (session\<lparr>s_activeBranchId := b_id branch, s_updatedAt := now\<rparr>)"
proof -
  have "find (\<lambda>b. b_name b = branchName) (s_branches session) = Some branch"
    using assms(2-4) by (simp add: find_first)
  with assms(1) show ?thesis
    by (simp add: switchBranch_def getSession_def AList.update_conv')
qed

theorem switchBranch_first_created_wins_witness:
  "getSession ''s'' exManager = Some exSession
   \<and> s_branches exSession = [exMain] @ exAlt1 # [exAlt2]
   \<and> b_name exAlt1 = ''alt'' \<and> list_all (\<lambda>b. b_name b \<noteq> ''alt'') [exMain]
   \<and> b_name exAlt2 = ''alt''
   \<and> fst (switchBranch 5 ''s'' ''alt'' exManager) = True
   \<and> getSession ''s'' (snd (switchBranch 5 ''s'' ''alt'' exManager)) =
       Some (exSession\<lparr>s_activeBranchId := b_id exAlt1, s_updatedAt := 5\<rparr>)"
proof -
  have h1: "getSession ''s'' exManager = Some exSession" by (rule exSession_stored)
  have h2: "s_branches exSession = [exMain] @ exAlt1 # [exAlt2]" by (simp add: exSession_def)
  have h3: "b_name exAlt1 = ''alt''" by (simp add: exAlt1_def)
  have h4: "\<forall>b\<in>set [exMain]. b_name b \<noteq> ''alt''" by (simp add: exMain_def)
  have h5: "b_name exAlt2 = ''alt''" by (simp add: exAlt2_def)
  from switchBranch_first_created_wins [OF h1 h2 h3 h4, of 5] h1 h2 h3 h4 h5
  show ?thesis by simp
qed

lemma addThoughtIn_snd:
  "snd (addThoughtIn env input s) =
     backfill input
       ((routed env input s)\<lparr>s_thoughts := s_thoughts s @ [appended env input s],
                              s_updatedAt := date_touch env\<rparr>)"
  by (cases "truthy (i_newBranchName input)")
     (simp_all add: appended_def addThoughtIn_def Let_def createBranch_def routed_def backfill_def)

lemma addThoughtIn_fst:
  "fst (addThoughtIn env input s) =
     \<lparr>r_sessionId = s_id s, r_stepNumber = t_stepNumber (appended env input s),
      r_totalSteps = length (s_thoughts s) + 1,
      r_activeBranch =
        strOr (map_option b_name (find (\<lambda>b. b_id b = targetBranch env input s)
                 (s_branches (routed env input s)))) DEFAULT_BRANCH_NAME,
      r_branchCount = length (s_branches (routed env input s)),
      r_thoughtRecorded = i_thought input,
      r_thoughtType = t_thoughtType (appended env input s),
      r_isRevision = t_isRevision (appended env input s),
      r_nextThoughtNeeded = i_nextThoughtNeeded input,
      r_progress = getProgress (snd (addThoughtIn env input s))\<rparr>"
  by (cases "truthy (i_newBranchName input)")
     (simp_all add: appended_def addThoughtIn_def Let_def createBranch_def routed_def targetBranch_def)


lemma appended_eq:
  "appended env input s =
     \<lparr>t_id = uuid_thought env,
      t_stepNumber = length (onBranch (targetBranch env input s) s) + 1,
      t_thought = i_thought input,
      t_thoughtType =
        (case i_thoughtType input of Some ty \<Rightarrow> ty | None \<Rightarrow> inferThoughtType (i_thought input)),
      t_isRevision = (case i_isRevision input of Some b \<Rightarrow> b | None \<Rightarrow> False),
      t_revisesStep = i_revisesStep input, t_branchId = targetBranch env input s,
      t_branchFromStep = i_branchFromStep input, t_confidence = i_confidence input,
      t_tags = i_tags input, t_timestamp = date_thought env\<rparr>"
  by (cases "truthy (i_newBranchName input)")
     (simp_all add: appended_def addThoughtIn_def Let_def createBranch_def targetBranch_def
        onBranch_def)

lemma createBranch_status:
  "fst (createBranch env (s\<lparr>s_status := st\<rparr>) n f) = fst (createBranch env s n f)"
  by (simp add: createBranch_def Let_def split: option.splits)

lemma appended_status: "appended env input (s\<lparr>s_status := st\<rparr>) = appended env input s"
  by (simp add: appended_eq targetBranch_def onBranch_def)

lemma routed_status:
  "routed env input (s\<lparr>s_status := st\<rparr>) = (routed env input s)\<lparr>s_status := st\<rparr>"
  by (simp add: routed_def createBranch_status)

lemma backfill_status: "backfill input (s\<lparr>s_status := st\<rparr>) = (backfill input s)\<lparr>s_status := st\<rparr>"
  by (simp add: backfill_def)

lemma addThoughtIn_status_snd:
  "snd (addThoughtIn env input (s\<lparr>s_status := st\<rparr>)) = (snd (addThoughtIn env input s))\<lparr>s_status := st\<rparr>"
  by (simp add: addThoughtIn_snd appended_status routed_status backfill_def)

lemma getProgress_status:
  "(getProgress (s\<lparr>s_status := st\<rparr>))\<lparr>p_hasMoreThoughts := True\<rparr> =
   (getProgress s)\<lparr>p_hasMoreThoughts := True\<rparr>"
  by (simp add: getProgress_def generateQuickSummary_def Let_def)

lemma addThoughtIn_status_fst:
  "maskHasMoreThoughts (fst (addThoughtIn env input (s\<lparr>s_status := st\<rparr>))) =
   maskHasMoreThoughts (fst (addThoughtIn env input s))"
  unfolding maskHasMoreThoughts_def addThoughtIn_fst [of env input "s\<lparr>s_status := st\<rparr>"]
    addThoughtIn_fst [of env input s] addThoughtIn_status_snd
  by (simp add: appended_status routed_status getProgress_status targetBranch_def)

lemma addThoughtIn_hasMoreThoughts:
  "p_hasMoreThoughts (r_progress (fst (addThoughtIn env input s))) =
     (countType Conclusion (s_thoughts (snd (addThoughtIn env input s))) = 0 \<or> s_status s = Active)"
  unfolding addThoughtIn_fst [of env input s]
  by (simp add: getProgress_def countType_def Let_def addThoughtIn_status)

lemma startsWith_prefix: "startsWith s p \<longleftrightarrow> prefix p s"
  unfolding startsWith_def
  by (metis prefix_def append_eq_conv_conj take_is_prefix)

lemma str_includes_sublist: "str_includes s sub \<longleftrightarrow> sublist sub s"
  by (induction s) (auto simp: sublist_Cons_right startsWith_prefix)

section \<open>Thought classification\<close>

text \<open>
  C7: \<open>inferThoughtType\<close> is the classification of the specification: it lower-cases the
  text, tests the eight keyword rules in the specification's order and returns the type of
  the first rule that matches, \<open>analysis\<close> when none does. The thought that \<open>addThought\<close>
  appends has the caller's \<open>thoughtType\<close> when one is given, and the inferred type only
  when it is omitted.
\<close>

theorem inferThoughtType_is_spec_classification:
  "inferThoughtType text = spec_classify text
   \<and> t_thoughtType (appended env input session) =
       (case i_thoughtType input of
          Some ty \<Rightarrow> ty
        | None \<Rightarrow> inferThoughtType (i_thought input))"
proof -
  have "inferThoughtType t = spec_classify t" for t
    by (simp add: inferThoughtType_def spec_classify_def spec_rules_def spec_rule_matches_def
        Let_def str_includes_sublist startsWith_prefix)
  then show ?thesis by (simp add: appended_thoughtType)
qed

theorem inferThoughtType_is_spec_classification_witness:
  "spec_classify ''What is the root cause?'' = Question
   \<and> spec_classify ''I notice the cache is stale'' = Observation
   \<and> spec_classify ''Therefore the fix is X'' = Conclusion
   \<and> spec_classify ''Maybe we should use LRU'' = Hypothesis
   \<and> spec_classify ''Let us refine the approach'' = Refinement
   \<and> spec_classify ''The system has three components'' = Analysis
   \<and> t_thoughtType (appended (exEnv ''b3'' ''t4'' 4)
         ((exInput ''Finally?'' None None)\<lparr>i_thoughtType := Some Insight\<rparr>) exSession) = Insight
   \<and> t_thoughtType (appended (exEnv ''b3'' ''t4'' 4) (exInput ''Finally?'' None None) exSession)
       = Question"
proof -
  have "inferThoughtType ''What is the root cause?'' = Question"
    and "inferThoughtType ''I notice the cache is stale'' = Observation"
    and "inferThoughtType ''Therefore the fix is X'' = Conclusion"
    and "inferThoughtType ''Maybe we should use LRU'' = Hypothesis"
    and "inferThoughtType ''Let us refine the approach'' = Refinement"
    and "inferThoughtType ''The system has three components'' = Analysis"
    and "inferThoughtType ''Finally?'' = Question"
    by code_simp+
  moreover have "i_thoughtType ((exInput ''Finally?'' None None)\<lparr>i_thoughtType := Some Insight\<rparr>)
      = Some Insight"
    and "i_thoughtType (exInput ''Finally?'' None None) = None"
    and "i_thought (exInput ''Finally?'' None None) = ''Finally?''"
    by (simp_all add: exInput_def)
  ultimately show ?thesis
    using inferThoughtType_is_spec_classification [of "''What is the root cause?''"
        "exEnv ''b3'' ''t4'' 4" "(exInput ''Finally?'' None None)\<lparr>i_thoughtType := Some Insight\<rparr>" exSession]
      inferThoughtType_is_spec_classification [of "''I notice the cache is stale''"
        "exEnv ''b3'' ''t4'' 4" "exInput ''Finally?'' None None" exSession]
      inferThoughtType_is_spec_classification [of "''Therefore the fix is X''"]
      inferThoughtType_is_spec_classification [of "''Maybe we should use LRU''"]
      inferThoughtType_is_spec_classification [of "''Let us refine the approach''"]
      inferThoughtType_is_spec_classification [of "''The system has three components''"]
    by simp
qed


section \<open>Appending with a branch id\<close>

text \<open>
  In \<^const>\<open>exManager\<close> the active branch is \<open>b2\<close>. A call of \<open>addThought\<close> with
  \<open>branchId\<close> \<open>m1\<close>, the id of the main branch, and no \<open>newBranchName\<close> leaves \<open>b2\<close>
  active.
\<close>

theorem addThought_branchId_not_activated_counterexample:
  "map_option s_activeBranchId
     (getSession ''s''
        (snd (addThought (exEnv ''b3'' ''t4'' 4) (exInput ''x'' (Some ''m1'') None) exManager)))
     = Some ''b2''
   \<and> map_option s_activeBranchId
     (getSession ''s''
        (snd (addThought (exEnv ''b3'' ''t4'' 4) (exInput ''x'' (Some ''m1'') None) exManager)))
     \<noteq> Some ''m1''"
  by code_simp

text \<open>
  C2 (amended): a call of \<open>addThought\<close> with a non-empty \<open>branchId\<close> and no
  \<open>newBranchName\<close> routes the appended thought onto the supplied branch id, whether or not
  a branch has that id: the thought carries the id, and its step number is the number of
  thoughts already carrying it plus one. The active branch and the branches of the
  session are unchanged.
\<close>

theorem addThought_branchId_routes_without_switching:
  assumes "i_branchId input = Some branchId" and "branchId \<noteq> []"
    and "\<not> truthy (i_newBranchName input)"
    and "getOrCreateSession env (i_sessionId input) (Some (i_thought input)) m = (key, session, m1)"
  shows "\<exists>session'.
           getSession key (snd (addThought env input m)) = Some session'
           \<and> s_thoughts session' = s_thoughts session @ [appended env input session]
           \<and> t_branchId (appended env input session) = branchId
           \<and> t_stepNumber (appended env input session) = length (onBranch branchId session) + 1
           \<and> r_stepNumber (fst (addThought env input m)) = length (onBranch branchId session) + 1
           \<and> s_activeBranchId session' = s_activeBranchId session
           \<and> s_branches session' = s_branches session"
proof -
  have tb: "targetBranch env input session = branchId"
    using assms(1-3) by (simp add: targetBranch_def)
  have "getSession key (snd (addThought env input m)) = Some (snd (addThoughtIn env input session))"
    by (simp add: addThought_state(1) [OF assms(4)])
  moreover have "r_stepNumber (fst (addThought env input m)) = length (onBranch branchId session) + 1"
    by (simp add: addThought_state(2) [OF assms(4)] addThoughtIn_stepNumber appended_stepNumber tb)
  ultimately show ?thesis
    using assms(3) tb
    by (simp add: addThoughtIn_thoughts appended_branchId appended_stepNumber
        addThoughtIn_activeBranchId addThoughtIn_branches)
qed

theorem addThought_branchId_routes_without_switching_witness:
  "i_branchId (exInput ''x'' (Some ''m1'') None) = Some ''m1'' \<and> ''m1'' \<noteq> []
   \<and> \<not> truthy (i_newBranchName (exInput ''x'' (Some ''m1'') None))
   \<and> getOrCreateSession (exEnv ''b3'' ''t4'' 4) (i_sessionId (exInput ''x'' (Some ''m1'') None))
         (Some (i_thought (exInput ''x'' (Some ''m1'') None))) exManager
       = (''s'', exSession, exManager)
   \<and> (\<exists>session'.
         getSession ''s''
           (snd (addThought (exEnv ''b3'' ''t4'' 4) (exInput ''x'' (Some ''m1'') None) exManager))
           = Some session'
         \<and> s_thoughts session' =
             s_thoughts exSession @ [exThought ''t4'' 2 ''x'' Analysis ''m1'' 4]
         \<and> s_activeBranchId session' = ''b2'')"
proof -
  let ?i = "exInput ''x'' (Some ''m1'') None" and ?e = "exEnv ''b3'' ''t4'' 4"
  have h1: "i_branchId ?i = Some ''m1''" by (simp add: exInput_def)
  have h2: "''m1'' \<noteq> []" by simp
  have h3: "\<not> truthy (i_newBranchName ?i)" by (simp add: exInput_def)
  have h4: "getOrCreateSession ?e (i_sessionId ?i) (Some (i_thought ?i)) exManager
              = (''s'', exSession, exManager)"
    by (simp add: getOrCreateSession_def knownSession_def exInput_def exManager_eq)
  have a: "appended ?e ?i exSession = exThought ''t4'' 2 ''x'' Analysis ''m1'' 4"
    by code_simp
  have b: "s_activeBranchId exSession = ''b2''" by (simp add: exSession_def)
  from addThought_branchId_routes_without_switching [OF h1 h2 h3 h4] h1 h2 h3 h4 a b
  show ?thesis by auto
qed

section \<open>Appending and the session status\<close>

text \<open>
  C10: \<open>addThought\<close> does not read the status of the session. On an existing session,
  overwriting the status before the call and after it give the same manager; the results
  agree but for the \<open>hasMoreThoughts\<close> flag of the progress, which is true when the
  session has no conclusion or the status is \<open>active\<close>; and the call appends its thought
  whatever the status is.
\<close>

theorem addThought_ignores_status:
  assumes "i_sessionId input = Some sessionId" and "sessionId \<noteq> []"
    and "getSession sessionId m = Some session"
  shows "snd (addThought env input (withStatus sessionId st m)) =
           withStatus sessionId st (snd (addThought env input m))
         \<and> maskHasMoreThoughts (fst (addThought env input (withStatus sessionId st m))) =
             maskHasMoreThoughts (fst (addThought env input m))
         \<and> p_hasMoreThoughts (r_progress (fst (addThought env input (withStatus sessionId st m)))) =
             (countType Conclusion (s_thoughts session @ [appended env input session]) = 0
              \<or> st = Active)
         \<and> getSession sessionId (snd (addThought env input (withStatus sessionId st m))) =
             Some ((snd (addThoughtIn env input session))\<lparr>s_status := st\<rparr>)
         \<and> s_thoughts (snd (addThoughtIn env input session)) =
             s_thoughts session @ [appended env input session]"
proof -
  let ?m = "withStatus sessionId st m"
  have w: "?m = m\<lparr>sessions := AList.update sessionId (session\<lparr>s_status := st\<rparr>) (sessions m)\<rparr>"
    using assms(3) by (simp add: withStatus_def getSession_def)
  have g0: "getOrCreateSession env (i_sessionId input) (Some (i_thought input)) m =
              (sessionId, session, m)"
    using assms by (simp add: getOrCreateSession_known knownSession_Some)
  have "getSession sessionId ?m = Some (session\<lparr>s_status := st\<rparr>)"
    by (simp add: w)
  then have g1: "getOrCreateSession env (i_sessionId input) (Some (i_thought input)) ?m =
              (sessionId, session\<lparr>s_status := st\<rparr>, ?m)"
    using assms(1,2) by (simp add: getOrCreateSession_known knownSession_Some)
  have s0: "snd (addThought env input m) =
      m\<lparr>sessions := AList.update sessionId (snd (addThoughtIn env input session)) (sessions m)\<rparr>"
    by (rule addThought_state(1) [OF g0])
  have s1: "snd (addThought env input ?m) =
      m\<lparr>sessions := AList.update sessionId ((snd (addThoughtIn env input session))\<lparr>s_status := st\<rparr>)
                       (sessions m)\<rparr>"
    unfolding addThought_state(1) [OF g1] by (simp add: addThoughtIn_status_snd w)
  have c1: "snd (addThought env input ?m) = withStatus sessionId st (snd (addThought env input m))"
    unfolding s1 s0 by (simp add: withStatus_def AList.update_conv')
  have c2: "maskHasMoreThoughts (fst (addThought env input ?m)) =
             maskHasMoreThoughts (fst (addThought env input m))"
    unfolding addThought_state(2) [OF g1] addThought_state(2) [OF g0]
    by (rule addThoughtIn_status_fst)
  have c3: "p_hasMoreThoughts (r_progress (fst (addThought env input ?m))) =
             (countType Conclusion (s_thoughts session @ [appended env input session]) = 0
              \<or> st = Active)"
    unfolding addThought_state(2) [OF g1]
    by (simp add: addThoughtIn_hasMoreThoughts addThoughtIn_status_snd addThoughtIn_thoughts)
  have c4: "getSession sessionId (snd (addThought env input ?m)) =
             Some ((snd (addThoughtIn env input session))\<lparr>s_status := st\<rparr>)"
    by (simp add: s1)
  from c1 c2 c3 c4 show ?thesis by (simp add: addThoughtIn_thoughts)
qed

theorem addThought_ignores_status_witness:
  "i_sessionId (exInput ''finally'' None None) = Some ''s'' \<and> ''s'' \<noteq> []
   \<and> getSession ''s'' exManager = Some exSession
   \<and> snd (addThought (exEnv ''b3'' ''t4'' 4) (exInput ''finally'' None None)
             (withStatus ''s'' Completed exManager)) =
       withStatus ''s'' Completed
         (snd (addThought (exEnv ''b3'' ''t4'' 4) (exInput ''finally'' None None) exManager))
   \<and> p_hasMoreThoughts (r_progress (fst (addThought (exEnv ''b3'' ''t4'' 4)
         (exInput ''finally'' None None) (withStatus ''s'' Completed exManager)))) = False
   \<and> map_option (\<lambda>s. (length (s_thoughts s), s_status s))
         (getSession ''s'' (snd (addThought (exEnv ''b3'' ''t4'' 4)
            (exInput ''finally'' None None) (withStatus ''s'' Completed exManager)))) =
       Some (4, Completed)"
proof -
  let ?i = "exInput ''finally'' None None" and ?e = "exEnv ''b3'' ''t4'' 4"
  have h1: "i_sessionId ?i = Some ''s''" by (simp add: exInput_def)
  have h2: "''s'' \<noteq> []" by simp
  have h3: "getSession ''s'' exManager = Some exSession" by (rule exSession_stored)
  have a: "countType Conclusion (s_thoughts exSession @ [appended ?e ?i exSession]) = 1"
    by code_simp
  have b: "length (s_thoughts exSession) = 3" by (simp add: exSession_def)
  note t = addThought_ignores_status [OF h1 h2 h3, of ?e Completed]
  from t have c1: "snd (addThought ?e ?i (withStatus ''s'' Completed exManager)) =
      withStatus ''s'' Completed (snd (addThought ?e ?i exManager))"
    by blast
  from t a have c2: "p_hasMoreThoughts (r_progress (fst (addThought ?e ?i
      (withStatus ''s'' Completed exManager)))) = False"
    by simp
  from t have g: "getSession ''s'' (snd (addThought ?e ?i (withStatus ''s'' Completed exManager))) =
      Some ((snd (addThoughtIn ?e ?i exSession))\<lparr>s_status := Completed\<rparr>)"
    by blast
  from t have th: "s_thoughts (snd (addThoughtIn ?e ?i exSession)) =
      s_thoughts exSession @ [appended ?e ?i exSession]"
    by blast
  have c3: "map_option (\<lambda>s. (length (s_thoughts s), s_status s))
      (getSession ''s'' (snd (addThought ?e ?i (withStatus ''s'' Completed exManager)))) =
      Some (4, Completed)"
    by (simp add: g th b)
  from h1 h2 h3 c1 c2 c3 show ?thesis by blast
qed

section \<open>Invariants of the manager\<close>

lemma allSessions_update:
  "allSessions P m \<Longrightarrow> P v \<Longrightarrow> allSessions P (m\<lparr>sessions := AList.update k v (sessions m)\<rparr>)"
  by (simp add: allSessions_def)

lemma allSessions_newManager: "allSessions P newManager"
  by (simp add: allSessions_def newManager_def getSession_def)

lemma allSessionsD: "allSessions P m \<Longrightarrow> getSession k m = Some s \<Longrightarrow> P s"
  by (simp add: allSessions_def)

lemma getOrCreateSession_all:
  assumes "allSessions P m" and "\<And>sid. P (newSession env sid problem)"
    and "getOrCreateSession env sessionId problem m = (key, s0, m1)"
  shows "allSessions P m1 \<and> P s0"
proof (cases "knownSession sessionId m")
  case None
  with assms(3) have "m1 = m\<lparr>sessions := AList.update key s0 (sessions m)\<rparr>"
    and "s0 = newSession env key problem"
    by (auto simp: getOrCreateSession_new)
  with assms(1,2) show ?thesis by (simp add: allSessions_update)
next
  case (Some s)
  with assms(3) have "m1 = m" "s0 = s" by (auto simp: getOrCreateSession_known)
  moreover from Some have "\<exists>k. getSession k m = Some s"
    by (auto simp: knownSession_def getSession_def split: option.splits if_splits)
  ultimately show ?thesis using assms(1) by (auto dest: allSessionsD)
qed

lemma allSessions_weaken: "allSessions P m \<Longrightarrow> (\<And>s. P s \<Longrightarrow> Q s) \<Longrightarrow> allSessions Q m"
  by (simp add: allSessions_def)

text \<open>
  One operation, from a property \<open>P\<close> of every session before it to a property \<open>Q\<close> of
  every session after it.
\<close>

lemma exec_step:
  assumes inv: "allSessions P m"
    and weak: "\<And>s. P s \<Longrightarrow> Q s"
    and new: "\<And>env sid problem. P (newSession env sid problem)"
    and add: "\<And>env input s. op = AddThought env input \<Longrightarrow> P s \<Longrightarrow>
                Q (snd (addThoughtIn env input s))"
    and br: "\<And>env key n f s. op = CreateBranch env key n f \<Longrightarrow> P s \<Longrightarrow>
                Q (snd (createBranch env s n f))"
    and sw: "\<And>now sid n s b. op = SwitchBranch now sid n \<Longrightarrow> P s \<Longrightarrow> b \<in> set (s_branches s) \<Longrightarrow>
               Q (s\<lparr>s_activeBranchId := b_id b, s_updatedAt := now\<rparr>)"
    and st: "\<And>now sid status s. op = UpdateSessionStatus now sid status \<Longrightarrow> P s \<Longrightarrow>
               Q (s\<lparr>s_status := status, s_updatedAt := now\<rparr>)"
    and srt: "\<And>s. P s \<Longrightarrow> Q (s\<lparr>s_thoughts := sort_key t_timestamp (s_thoughts s)\<rparr>)"
  shows "allSessions Q (exec op m)"
proof (cases op)
  case (GetOrCreateSession env sessionId problem)
  obtain key s0 m1 where g: "getOrCreateSession env sessionId problem m = (key, s0, m1)"
    by (metis prod_cases3)
  from getOrCreateSession_all [OF inv new g] have "allSessions P m1" by simp
  then have "allSessions Q m1" using weak by (rule allSessions_weaken)
  with g GetOrCreateSession show ?thesis by simp
next
  case (AddThought env input)
  obtain key s0 m1 where
    g: "getOrCreateSession env (i_sessionId input) (Some (i_thought input)) m = (key, s0, m1)"
    by (metis prod_cases3)
  from getOrCreateSession_all [OF inv new g] have m1: "allSessions P m1" and s0: "P s0" by auto
  from m1 have "allSessions Q m1" using weak by (rule allSessions_weaken)
  moreover from AddThought s0 have "Q (snd (addThoughtIn env input s0))" by (rule add)
  ultimately show ?thesis
    using AddThought by (simp add: addThought_state(1) [OF g] allSessions_update)
next
  case (CreateBranch env key name f)
  from inv have q: "allSessions Q m" using weak by (rule allSessions_weaken)
  show ?thesis
  proof (cases "getSession key m")
    case None
    with q CreateBranch show ?thesis by (simp add: getSession_def)
  next
    case (Some s)
    with inv have "P s" by (auto dest: allSessionsD)
    with CreateBranch have "Q (snd (createBranch env s name f))" by (rule br)
    with q Some CreateBranch show ?thesis
      by (simp add: getSession_def allSessions_update)
  qed
next
  case (SwitchBranch now sessionId branchName)
  from inv have q: "allSessions Q m" using weak by (rule allSessions_weaken)
  show ?thesis
  proof (cases "getSession sessionId m")
    case None
    with q SwitchBranch show ?thesis by (simp add: switchBranch_def getSession_def)
  next
    case (Some s)
    with inv have p: "P s" by (auto dest: allSessionsD)
    show ?thesis
    proof (cases "find (\<lambda>b. b_name b = branchName) (s_branches s)")
      case None
      with q Some SwitchBranch show ?thesis by (simp add: switchBranch_def getSession_def)
    next
      case (Some b)
      then have "b \<in> set (s_branches s)" by (auto dest: find_Some_split)
      with SwitchBranch p have "Q (s\<lparr>s_activeBranchId := b_id b, s_updatedAt := now\<rparr>)"
        by (rule sw)
      with q Some \<open>getSession sessionId m = Some s\<close> SwitchBranch show ?thesis
        by (simp add: switchBranch_def getSession_def allSessions_update)
    qed
  qed
next
  case (UpdateSessionStatus now sessionId status)
  from inv have q: "allSessions Q m" using weak by (rule allSessions_weaken)
  show ?thesis
  proof (cases "getSession sessionId m")
    case None
    with q UpdateSessionStatus show ?thesis
      by (simp add: updateSessionStatus_def getSession_def)
  next
    case (Some s)
    with inv have "P s" by (auto dest: allSessionsD)
    with UpdateSessionStatus have "Q (s\<lparr>s_status := status, s_updatedAt := now\<rparr>)"
      by (rule st)
    with q Some UpdateSessionStatus show ?thesis
      by (simp add: updateSessionStatus_def getSession_def allSessions_update)
  qed
next
  case (GetSummary sessionId)
  from inv have q: "allSessions Q m" using weak by (rule allSessions_weaken)
  show ?thesis
  proof (cases "getSession sessionId m")
    case None
    with q GetSummary show ?thesis by (simp add: getSummary_def getSession_def)
  next
    case (Some s)
    with inv have "P s" by (auto dest: allSessionsD)
    then have "Q (s\<lparr>s_thoughts := sort_key t_timestamp (s_thoughts s)\<rparr>)" by (rule srt)
    with q Some GetSummary show ?thesis
      by (simp add: getSummary_def getSession_def Let_def allSessions_update)
  qed
qed

text \<open>An invariant of sessions that every operation keeps holds after every sequence.\<close>

lemma run_all:
  assumes "allSessions P m"
    and "\<And>env sid problem. P (newSession env sid problem)"
    and "\<And>env input s. P s \<Longrightarrow> P (snd (addThoughtIn env input s))"
    and "\<And>env s n f. P s \<Longrightarrow> P (snd (createBranch env s n f))"
    and "\<And>s b now. P s \<Longrightarrow> b \<in> set (s_branches s) \<Longrightarrow>
               P (s\<lparr>s_activeBranchId := b_id b, s_updatedAt := now\<rparr>)"
    and "\<And>s status now. P s \<Longrightarrow> P (s\<lparr>s_status := status, s_updatedAt := now\<rparr>)"
    and "\<And>s. P s \<Longrightarrow> P (s\<lparr>s_thoughts := sort_key t_timestamp (s_thoughts s)\<rparr>)"
  shows "allSessions P (run ops m)"
  using assms(1)
proof (induction ops arbitrary: m)
  case Nil
  then show ?case by simp
next
  case (Cons op ops)
  have "allSessions P (exec op m)"
    by (rule exec_step [OF Cons.prems _ assms(2)]) (simp_all add: assms(3-7))
  then show ?case by (simp add: Cons.IH)
qed

text \<open>
  C3: in every manager reached from the empty one by a sequence of engine operations
  (\<open>getOrCreateSession\<close>, \<open>addThought\<close> with any input, also a \<open>branchId\<close> that no
  branch has, \<open>createBranch\<close>, \<open>switchBranch\<close>, \<open>updateSessionStatus\<close>, \<open>getSummary\<close>),
  the active branch id of every session is the id of a branch of that session.
\<close>

theorem activeBranchId_references_a_branch:
  assumes "getSession sessionId (run ops newManager) = Some session"
  shows "\<exists>branch \<in> set (s_branches session). b_id branch = s_activeBranchId session"
proof -
  have "allSessions activeBranchOk (run ops newManager)"
  proof (rule run_all [OF allSessions_newManager])
    show "activeBranchOk (newSession env sid problem)" for env sid problem
      by (simp add: activeBranchOk_def newSession_def)
    show "activeBranchOk (snd (addThoughtIn env input s))" if "activeBranchOk s" for env input s
      using that
      by (simp add: activeBranchOk_def addThoughtIn_activeBranchId addThoughtIn_branches
          createBranch_fst_id)
    show "activeBranchOk (snd (createBranch env s n f))" if "activeBranchOk s" for env s n f
      using that by (simp add: activeBranchOk_def createBranch_snd)
    show "activeBranchOk (s\<lparr>s_activeBranchId := b_id b, s_updatedAt := now\<rparr>)"
      if "b \<in> set (s_branches s)" for s b now
      using that by (simp add: activeBranchOk_def)
    show "activeBranchOk (s\<lparr>s_status := status, s_updatedAt := now\<rparr>)"
      if "activeBranchOk s" for s status now
      using that by (simp add: activeBranchOk_def)
    show "activeBranchOk (s\<lparr>s_thoughts := sort_key t_timestamp (s_thoughts s)\<rparr>)"
      if "activeBranchOk s" for s
      using that by (simp add: activeBranchOk_def)
  qed
  then have "activeBranchOk session" using assms by (rule allSessionsD)
  then show ?thesis by (auto simp: activeBranchOk_def)
qed

theorem activeBranchId_references_a_branch_witness:
  "getSession ''s'' (run (exOps @ [AddThought (exEnv ''b3'' ''t4'' 4) (exInput ''x'' (Some ''nope'') None)])
       newManager)
     = Some (exSession\<lparr>s_thoughts := s_thoughts exSession @ [exThought ''t4'' 1 ''x'' Analysis ''nope'' 4],
                        s_updatedAt := 4\<rparr>)
   \<and> (\<exists>branch \<in> set (s_branches exSession). b_id branch = s_activeBranchId exSession)"
proof -
  have h: "getSession ''s'' (run (exOps @ [AddThought (exEnv ''b3'' ''t4'' 4) (exInput ''x'' (Some ''nope'') None)])
       newManager)
     = Some (exSession\<lparr>s_thoughts := s_thoughts exSession @ [exThought ''t4'' 1 ''x'' Analysis ''nope'' 4],
                        s_updatedAt := 4\<rparr>)"
    by code_simp
  from activeBranchId_references_a_branch [OF h] h show ?thesis by simp
qed


section \<open>Reads\<close>











section \<open>Step numbers\<close>

lemma strOr_falsy: "\<not> truthy x \<Longrightarrow> strOr x d = d"
  by (cases x) auto

lemma resolve_branchSteps:
  assumes "sessionId \<noteq> []"
  obtains s0 m1 where "getOrCreateSession env (Some sessionId) problem m = (sessionId, s0, m1)"
    and "map t_stepNumber (onBranch (s_activeBranchId s0) s0) = branchSteps sessionId m"
proof (cases "getSession sessionId m")
  case None
  with assms have "knownSession (Some sessionId) m = None" by (simp add: knownSession_Some)
  from getOrCreateSession_new [OF this, of env problem] assms None that show ?thesis
    by (simp add: branchSteps_def onBranch_def newSession_def)
next
  case (Some s)
  with assms have "knownSession (Some sessionId) m = Some s" by (simp add: knownSession_Some)
  from getOrCreateSession_known [OF this, of env problem] assms Some that show ?thesis
    by (simp add: branchSteps_def)
qed

lemma addThought_plain_step:
  assumes sid: "sessionId \<noteq> []" and plain: "plainCall sessionId (env, input)"
  shows "r_stepNumber (fst (addThought env input m)) = length (branchSteps sessionId m) + 1"
    and "branchSteps sessionId (snd (addThought env input m)) =
           branchSteps sessionId m @ [length (branchSteps sessionId m) + 1]"
proof -
  from plain have i: "i_sessionId input = Some sessionId" and nb: "\<not> truthy (i_branchId input)"
    and nn: "\<not> truthy (i_newBranchName input)"
    by (simp_all add: plainCall_def)
  obtain s0 m1 where
    g: "getOrCreateSession env (Some sessionId) (Some (i_thought input)) m = (sessionId, s0, m1)"
    and b: "map t_stepNumber (onBranch (s_activeBranchId s0) s0) = branchSteps sessionId m"
    using resolve_branchSteps [OF sid] by blast
  from g i have g': "getOrCreateSession env (i_sessionId input) (Some (i_thought input)) m =
      (sessionId, s0, m1)" by simp
  have tb: "targetBranch env input s0 = s_activeBranchId s0"
    using nb nn by (simp add: targetBranch_def strOr_falsy)
  have len: "length (onBranch (s_activeBranchId s0) s0) = length (branchSteps sessionId m)"
    using b by (metis length_map)
  show "r_stepNumber (fst (addThought env input m)) = length (branchSteps sessionId m) + 1"
    by (simp add: addThought_state(2) [OF g'] addThoughtIn_stepNumber appended_stepNumber tb len)
  have "getSession sessionId (snd (addThought env input m)) = Some (snd (addThoughtIn env input s0))"
    by (simp add: addThought_state(1) [OF g'])
  then show "branchSteps sessionId (snd (addThought env input m)) =
           branchSteps sessionId m @ [length (branchSteps sessionId m) + 1]"
    using nn b
    by (simp add: branchSteps_def onBranch_def addThoughtIn_activeBranchId addThoughtIn_thoughts
        appended_branchId appended_stepNumber tb len [unfolded onBranch_def])
qed

text \<open>
  C1: \<open>N\<close> consecutive calls of \<open>addThought\<close> on one session, none with a branch
  directive, all land on the active branch of the session. Each gets as step number the
  count of thoughts already on that branch plus one: with \<open>k\<close> thoughts on the branch
  before the calls, the calls return \<open>k + 1\<close>, ..., \<open>k + N\<close> in order and the branch's
  step numbers grow by exactly these; on a branch that starts empty, as in a session the
  first call creates, the sequence is \<open>1\<close>, ..., \<open>N\<close>.
\<close>

theorem addThought_stepNumbers_sequential:
  assumes "sessionId \<noteq> []" and "\<forall>c\<in>set calls. plainCall sessionId c"
  shows "map r_stepNumber (fst (addThoughts calls m)) =
           [length (branchSteps sessionId m) + 1 ..<
            length (branchSteps sessionId m) + 1 + length calls]
         \<and> branchSteps sessionId (snd (addThoughts calls m)) =
             branchSteps sessionId m @
             [length (branchSteps sessionId m) + 1 ..<
              length (branchSteps sessionId m) + 1 + length calls]"
  using assms(2)
proof (induction calls arbitrary: m)
  case Nil
  then show ?case by simp
next
  case (Cons c calls)
  obtain env input where c: "c = (env, input)" by (cases c)
  let ?k = "length (branchSteps sessionId m)"
  let ?m1 = "snd (addThought env input m)"
  from Cons.prems c have plain: "plainCall sessionId (env, input)" by simp
  note step = addThought_plain_step [OF assms(1) plain, of m]
  from Cons.prems have "\<forall>c\<in>set calls. plainCall sessionId c" by simp
  from Cons.IH [OF this, of ?m1] step(2)
  have ih: "map r_stepNumber (fst (addThoughts calls ?m1)) = [?k + 2 ..< ?k + 2 + length calls]"
    and ih2: "branchSteps sessionId (snd (addThoughts calls ?m1)) =
       (branchSteps sessionId m @ [?k + 1]) @ [?k + 2 ..< ?k + 2 + length calls]"
    by simp_all
  have up: "[?k + 1 ..< ?k + 1 + length (c # calls)] = (?k + 1) # [?k + 2 ..< ?k + 2 + length calls]"
    by (simp add: upt_rec)
  show ?case
    unfolding up using ih ih2 step(1) c
    by (simp add: split_beta)
qed

theorem addThought_stepNumbers_sequential_witness:
  "''s'' \<noteq> []
   \<and> list_all (plainCall ''s'')
       [(exEnv ''b0'' ''t1'' 1, exInput ''a'' None None),
        (exEnv ''b0'' ''t2'' 2, exInput ''b'' None None),
        (exEnv ''b0'' ''t3'' 3, exInput ''c'' None None)]
   \<and> map r_stepNumber (fst (addThoughts
       [(exEnv ''b0'' ''t1'' 1, exInput ''a'' None None),
        (exEnv ''b0'' ''t2'' 2, exInput ''b'' None None),
        (exEnv ''b0'' ''t3'' 3, exInput ''c'' None None)] newManager)) = [1, 2, 3]
   \<and> branchSteps ''s'' (snd (addThoughts
       [(exEnv ''b0'' ''t1'' 1, exInput ''a'' None None),
        (exEnv ''b0'' ''t2'' 2, exInput ''b'' None None),
        (exEnv ''b0'' ''t3'' 3, exInput ''c'' None None)] newManager)) = [1, 2, 3]"
proof -
  let ?calls = "[(exEnv ''b0'' ''t1'' 1, exInput ''a'' None None),
        (exEnv ''b0'' ''t2'' 2, exInput ''b'' None None),
        (exEnv ''b0'' ''t3'' 3, exInput ''c'' None None)]"
  have h1: "''s'' \<noteq> []" by simp
  have h2: "\<forall>c\<in>set ?calls. plainCall ''s'' c" by (simp add: plainCall_def exInput_def)
  have b: "branchSteps ''s'' newManager = []"
    by (simp add: branchSteps_def getSession_def newManager_def)
  have u: "[Suc 0 ..< 4] = [1, 2, 3]" by (simp add: upt_rec)
  from addThought_stepNumbers_sequential [OF h1 h2, of newManager] h1 h2 b u
  show ?thesis by (simp add: list_all_iff)
qed

section \<open>Summary counts\<close>

lemma sum_indicator:
  "distinct bs \<Longrightarrow> x \<in> set bs \<Longrightarrow> (\<Sum>b\<leftarrow>bs. if x = b then 1 else 0) = (1::nat)"
proof (induction bs)
  case Nil
  then show ?case by simp
next
  case (Cons a bs)
  show ?case
  proof (cases "x = a")
    case True
    with Cons.prems have "x \<notin> set bs" by simp
    then have "(\<Sum>b\<leftarrow>bs. if x = b then 1 else 0) = (0::nat)" by (induction bs) auto
    with True show ?thesis by simp
  next
    case False
    with Cons show ?thesis by simp
  qed
qed

lemma sum_filter_lengths:
  "distinct bs \<Longrightarrow> \<forall>t\<in>set ts. f t \<in> set bs \<Longrightarrow>
     (\<Sum>b\<leftarrow>bs. length (filter (\<lambda>t. f t = b) ts)) = length ts"
proof (induction ts)
  case Nil
  then show ?case by simp
next
  case (Cons t ts)
  have "(\<Sum>b\<leftarrow>bs. length (filter (\<lambda>u. f u = b) (t # ts))) =
        (\<Sum>b\<leftarrow>bs. (if f t = b then 1 else 0) + length (filter (\<lambda>u. f u = b) ts))"
    by (rule arg_cong [where f = sum_list]) simp
  also have "\<dots> = (\<Sum>b\<leftarrow>bs. if f t = b then 1 else 0) + (\<Sum>b\<leftarrow>bs. length (filter (\<lambda>u. f u = b) ts))"
    by (simp add: sum_list_addf)
  also have "\<dots> = 1 + length ts"
    using Cons by (simp add: sum_indicator)
  finally show ?case by simp
qed

lemma branchIdsOk_sum:
  assumes "branchIdsOk s"
  shows "sum_list (map (bs_stepCount \<circ> branchSummary s) (s_branches s)) = length (s_thoughts s)"
proof -
  have "sum_list (map (bs_stepCount \<circ> branchSummary s) (s_branches s)) =
        (\<Sum>b\<leftarrow>map b_id (s_branches s). length (filter (\<lambda>t. t_branchId t = b) (s_thoughts s)))"
    by (simp add: branchSummary_def Let_def comp_def)
  also have "\<dots> = length (s_thoughts s)"
    using assms by (intro sum_filter_lengths) (auto simp: branchIdsOk_def)
  finally show ?thesis .
qed

lemma newSession_thoughts: "s_thoughts (newSession env sid problem) = []"
  by (simp add: newSession_def)

lemma newSession_branches: "length (s_branches (newSession env sid problem)) = 1"
  by (simp add: newSession_def)

lemma branchIdsOk_newSession: "branchIdsOk (newSession env sid problem)"
  by (simp add: branchIdsOk_def newSession_def)

lemma branchIdsOk_addThoughtIn:
  assumes "branchIdsOk s" and "callOk s (env, input)"
  shows "branchIdsOk (snd (addThoughtIn env input s))"
proof (cases "truthy (i_newBranchName input)")
  case True
  with assms show ?thesis
    by (auto simp: branchIdsOk_def callOk_def addThoughtIn_thoughts addThoughtIn_branches
        appended_branchId targetBranch_def createBranch_fst_id)
next
  case False
  with assms show ?thesis
    by (auto simp: branchIdsOk_def callOk_def addThoughtIn_thoughts addThoughtIn_branches
        appended_branchId)
qed

lemma addThought_counts_step:
  assumes sid: "sessionId \<noteq> []" and i: "i_sessionId input = Some sessionId"
    and ok: "sessionOk sessionId m"
    and call: "callOk (fst (snd (getOrCreateSession env (i_sessionId input)
                 (Some (i_thought input)) m))) (env, input)"
  shows "sessionOk sessionId (snd (addThought env input m))
         \<and> getSession sessionId (snd (addThought env input m)) \<noteq> None
         \<and> thoughtCount sessionId (snd (addThought env input m)) = thoughtCount sessionId m + 1
         \<and> branchCount sessionId (snd (addThought env input m)) =
             branchCount sessionId m + (if truthy (i_newBranchName input) then 1 else 0)"
proof -
  obtain s0 m1 where
    g: "getOrCreateSession env (i_sessionId input) (Some (i_thought input)) m = (sessionId, s0, m1)"
    and s0: "branchIdsOk s0" and nt: "length (s_thoughts s0) = thoughtCount sessionId m"
    and nb: "length (s_branches s0) = branchCount sessionId m"
  proof (cases "getSession sessionId m")
    case None
    with sid have "knownSession (Some sessionId) m = None" by (simp add: knownSession_Some)
    from getOrCreateSession_new [OF this, of env "Some (i_thought input)"] sid i
    have "getOrCreateSession env (i_sessionId input) (Some (i_thought input)) m =
        (sessionId, newSession env sessionId (Some (i_thought input)),
         m\<lparr>sessions := AList.update sessionId
              (newSession env sessionId (Some (i_thought input))) (sessions m)\<rparr>)"
      by simp
    then show ?thesis
      by (rule that)
        (simp_all add: branchIdsOk_newSession thoughtCount_def branchCount_def None
          newSession_thoughts newSession_branches)
  next
    case (Some s)
    with sid have "knownSession (Some sessionId) m = Some s" by (simp add: knownSession_Some)
    from getOrCreateSession_known [OF this, of env "Some (i_thought input)"] sid i
    have "getOrCreateSession env (i_sessionId input) (Some (i_thought input)) m =
        (sessionId, s, m)"
      by simp
    then show ?thesis
      by (rule that) (use ok in \<open>simp_all add: sessionOk_def thoughtCount_def branchCount_def Some\<close>)
  qed
  from call g have "callOk s0 (env, input)" by simp
  with s0 have "branchIdsOk (snd (addThoughtIn env input s0))" by (rule branchIdsOk_addThoughtIn)
  moreover have "getSession sessionId (snd (addThought env input m)) =
      Some (snd (addThoughtIn env input s0))"
    by (simp add: addThought_state(1) [OF g])
  ultimately show ?thesis
    using nt nb
    by (simp add: sessionOk_def thoughtCount_def branchCount_def addThoughtIn_thoughts
        addThoughtIn_branches)
qed

lemma addThoughts_counts:
  assumes "sessionId \<noteq> []"
  shows "sessionOk sessionId m \<Longrightarrow> \<forall>c\<in>set calls. i_sessionId (snd c) = Some sessionId \<Longrightarrow>
     callsOk calls m \<Longrightarrow>
     sessionOk sessionId (snd (addThoughts calls m))
     \<and> (calls \<noteq> [] \<longrightarrow> getSession sessionId (snd (addThoughts calls m)) \<noteq> None)
     \<and> thoughtCount sessionId (snd (addThoughts calls m)) = thoughtCount sessionId m + length calls
     \<and> branchCount sessionId (snd (addThoughts calls m)) =
         branchCount sessionId m + length (filter (\<lambda>c. truthy (i_newBranchName (snd c))) calls)"
proof (induction calls arbitrary: m)
  case Nil
  then show ?case by simp
next
  case (Cons c calls)
  obtain env input where c: "c = (env, input)" by (cases c)
  let ?m1 = "snd (addThought env input m)"
  from Cons.prems c have i: "i_sessionId input = Some sessionId"
    and call: "callOk (fst (snd (getOrCreateSession env (i_sessionId input)
                 (Some (i_thought input)) m))) (env, input)"
    and rest: "callsOk calls ?m1" and all: "\<forall>c\<in>set calls. i_sessionId (snd c) = Some sessionId"
    by simp_all
  note step = addThought_counts_step [OF assms i Cons.prems(1) call]
  from step have ok1: "sessionOk sessionId ?m1" by simp
  note ih = Cons.IH [OF ok1 all rest]
  have ex: "getSession sessionId (snd (addThoughts calls ?m1)) \<noteq> None"
  proof (cases calls)
    case Nil
    with step show ?thesis by simp
  next
    case (Cons d ds)
    with ih show ?thesis by simp
  qed
  have fin: "snd (addThoughts (c # calls) m) = snd (addThoughts calls ?m1)"
    by (simp add: c split_beta)
  show ?case
    unfolding fin using ih step ex c by auto
qed

text \<open>
  One call of \<open>addThought\<close> with a \<open>branchId\<close> that no branch of the session has: the
  summary reports one step and one branch, and the step counts of the branches add up
  to zero.
\<close>

theorem getSummary_counts_missing_branch_counterexample:
  "map_option summaryCounts
     (fst (getSummary ''s''
        (snd (addThoughts [(exEnv ''b0'' ''t1'' 1, exInput ''a'' (Some ''nope'') None)]
                newManager))))
     = Some (1, 1, 0)"
  by code_simp

text \<open>
  C5 (amended): for a session built by \<open>N \<ge> 1\<close> calls of \<open>addThought\<close>, in which every
  \<open>branchId\<close> a call supplies is the id of a branch of the session and every id generated
  for a new branch is new to the session, \<open>getSummary\<close> reports \<open>totalSteps = N\<close>, a
  branch list of length \<open>B\<close> (the main branch and one branch for each call with a
  \<open>newBranchName\<close>), and per-branch step counts that add up to \<open>N\<close>.
\<close>

theorem getSummary_counts_round_trip:
  assumes "sessionId \<noteq> []" and "getSession sessionId m = None" and "calls \<noteq> []"
    and "\<forall>c\<in>set calls. i_sessionId (snd c) = Some sessionId"
    and "callsOk calls m"
  shows "map_option summaryCounts (fst (getSummary sessionId (snd (addThoughts calls m)))) =
           Some (length calls,
                 1 + length (filter (\<lambda>c. truthy (i_newBranchName (snd c))) calls),
                 length calls)"
proof -
  let ?m = "snd (addThoughts calls m)"
  from assms(2) have ok: "sessionOk sessionId m" and t0: "thoughtCount sessionId m = 0"
    and b0: "branchCount sessionId m = 1"
    by (simp_all add: sessionOk_def thoughtCount_def branchCount_def)
  from addThoughts_counts [OF assms(1) ok assms(4,5)] assms(3) t0 b0
  obtain s where s: "getSession sessionId ?m = Some s" and sok: "branchIdsOk s"
    and nt: "length (s_thoughts s) = length calls"
    and nb: "length (s_branches s) =
       1 + length (filter (\<lambda>c. truthy (i_newBranchName (snd c))) calls)"
    by (auto simp: sessionOk_def thoughtCount_def branchCount_def split: option.splits)
  from s show ?thesis
    by (simp add: getSummary_def getSession_def Let_def summaryCounts_def nt nb
        branchIdsOk_sum [OF sok])
qed

theorem getSummary_counts_round_trip_witness:
  "''s'' \<noteq> [] \<and> getSession ''s'' newManager = None \<and> exCalls \<noteq> []
   \<and> list_all (\<lambda>c. i_sessionId (snd c) = Some ''s'') exCalls
   \<and> callsOk exCalls newManager
   \<and> map_option summaryCounts (fst (getSummary ''s'' (snd (addThoughts exCalls newManager)))) =
       Some (3, 2, 3)"
proof -
  have h1: "''s'' \<noteq> []" by simp
  have h2: "getSession ''s'' newManager = None" by (simp add: getSession_def newManager_def)
  have h3: "exCalls \<noteq> []" by (simp add: exCalls_def)
  have h4: "\<forall>c\<in>set exCalls. i_sessionId (snd c) = Some ''s''"
    by (simp add: exCalls_def exInput_def)
  have h5: "callsOk exCalls newManager" by code_simp
  have n: "length exCalls = 3" by (simp add: exCalls_def)
  have f: "length (filter (\<lambda>c. truthy (i_newBranchName (snd c))) exCalls) = 1"
    by (simp add: exCalls_def exInput_def)
  have c: "map_option summaryCounts
      (fst (getSummary ''s'' (snd (addThoughts exCalls newManager)))) = Some (3, 2, 3)"
    using getSummary_counts_round_trip [OF h1 h2 h3 h4 h5] by (simp add: n f numeral_2_eq_2)
  from h4 have h4': "list_all (\<lambda>c. i_sessionId (snd c) = Some ''s'') exCalls"
    by (simp add: list_all_iff)
  from h1 h2 h3 h4' h5 c show ?thesis by blast
qed

section \<open>Completing a session (route.ts)\<close>

lemma allStored_update: "allStored P st \<Longrightarrow> P v \<Longrightarrow> allStored P (AList.update k v st)"
  by (simp add: allStored_def AList.update_conv')

lemma singleBranch_route_newSession: "singleBranch (route_newSession env sid problem)"
  by (simp add: singleBranch_def route_newSession_def)

lemma route_getOrCreateSession_all:
  assumes "allStored singleBranch st"
    and "route_getOrCreateSession env sessionId problem st = (key, s0, st1)"
  shows "allStored singleBranch st1 \<and> singleBranch s0"
proof (cases "case sessionId of None \<Rightarrow> None | Some k \<Rightarrow> if k = [] then None else map_of st k")
  case None
  with assms(2) have "st1 = AList.update key s0 st"
    and "s0 = route_newSession env key problem"
    by (auto simp: route_getOrCreateSession_def Let_def)
  with assms(1) show ?thesis
    by (simp add: allStored_update singleBranch_route_newSession)
next
  case (Some s)
  with assms(2) have "st1 = st" "s0 = s" by (auto simp: route_getOrCreateSession_def)
  moreover from Some have "\<exists>k. map_of st k = Some s"
    by (auto split: option.splits if_splits)
  ultimately show ?thesis using assms(1) by (auto simp: allStored_def)
qed

lemma sequential_thinking_all:
  assumes "allStored singleBranch st"
  shows "allStored singleBranch (snd (sequential_thinking env args st))"
proof -
  obtain key s0 st1 where
    g: "route_getOrCreateSession env (a_sessionId args) (Some (a_thought args)) st = (key, s0, st1)"
    by (metis prod_cases3)
  from route_getOrCreateSession_all [OF assms g]
  have "allStored singleBranch st1" and "singleBranch s0" by auto
  then show ?thesis
    by (simp add: sequential_thinking_def g Let_def allStored_update singleBranch_def)
qed

lemma switch_thinking_branch_all:
  assumes "allStored singleBranch st"
  shows "allStored singleBranch (snd (switch_thinking_branch now sessionId branchName st))"
proof (cases "map_of st sessionId")
  case None
  with assms show ?thesis by (simp add: switch_thinking_branch_def)
next
  case (Some s)
  with assms have sb: "singleBranch s" by (auto simp: allStored_def)
  show ?thesis
  proof (cases "find (\<lambda>b. b_name b = branchName) (s_branches s)")
    case None
    with assms Some show ?thesis by (simp add: switch_thinking_branch_def)
  next
    case (Some b)
    then have "b \<in> set (s_branches s)" by (auto dest: find_Some_split)
    then have "b_id b \<in> set (map b_id (s_branches s))" by simp
    with sb have "b_id b = s_activeBranchId s" by (simp add: singleBranch_def)
    with sb have "singleBranch (s\<lparr>s_activeBranchId := b_id b, s_updatedAt := now\<rparr>)"
      by (simp add: singleBranch_def)
    with assms Some \<open>map_of st sessionId = Some s\<close> show ?thesis
      by (simp add: switch_thinking_branch_def allStored_update)
  qed
qed

lemma complete_thinking_session_all:
  assumes "allStored singleBranch st"
  shows "allStored singleBranch (snd (complete_thinking_session env sessionId finalConclusion st))"
proof (cases "map_of st sessionId")
  case None
  with assms show ?thesis by (simp add: complete_thinking_session_def)
next
  case (Some s)
  with assms have "singleBranch s" by (auto simp: allStored_def)
  with assms Some show ?thesis
    by (simp add: complete_thinking_session_def Let_def allStored_update singleBranch_def)
qed

lemma route_run_all:
  "allStored singleBranch st \<Longrightarrow> allStored singleBranch (route_run ops st)"
proof (induction ops arbitrary: st)
  case Nil
  then show ?case by simp
next
  case (Cons op ops)
  have "allStored singleBranch (route_exec op st)"
    using Cons.prems
    by (cases op)
      (simp_all add: sequential_thinking_all switch_thinking_branch_all
        complete_thinking_session_all)
  then show ?case by (simp add: Cons.IH)
qed

lemma singleBranch_onBranch:
  "singleBranch s \<Longrightarrow> onBranch (s_activeBranchId s) s = s_thoughts s"
  by (simp add: singleBranch_def onBranch_def)

text \<open>
  C4: for every session that exists in the handler's map after any sequence of tool
  calls, \<open>complete_thinking_session\<close> with a final conclusion text (a non-empty string)
  appends exactly one thought: of type \<open>conclusion\<close>, on the active branch, with the
  count of thoughts already on that branch plus one as step number; it then sets the
  status to \<open>completed\<close>. Without a text it appends nothing and only sets the status (and
  \<open>updatedAt\<close>). No other session is written.
\<close>

theorem complete_thinking_session_appends_conclusion:
  assumes "map_of (route_run ops []) sessionId = Some s"
  shows "(truthy finalConclusion \<longrightarrow>
            map_of (snd (complete_thinking_session env sessionId finalConclusion (route_run ops [])))
              sessionId =
            Some (s\<lparr>s_thoughts :=
                      s_thoughts s @ [conclusionThought env (strOr finalConclusion []) s],
                    s_status := Completed, s_updatedAt := date_touch env\<rparr>))
         \<and> (\<not> truthy finalConclusion \<longrightarrow>
            map_of (snd (complete_thinking_session env sessionId finalConclusion (route_run ops [])))
              sessionId =
            Some (s\<lparr>s_status := Completed, s_updatedAt := date_touch env\<rparr>))
         \<and> (key \<noteq> sessionId \<longrightarrow>
            map_of (snd (complete_thinking_session env sessionId finalConclusion (route_run ops [])))
              key =
            map_of (route_run ops []) key)"
proof -
  have "allStored singleBranch (route_run ops [])"
    by (rule route_run_all) (simp add: allStored_def)
  with assms have "singleBranch s" by (auto simp: allStored_def)
  then have "length (onBranch (s_activeBranchId s) s) = length (s_thoughts s)"
    by (simp add: singleBranch_onBranch)
  with assms show ?thesis
    by (simp add: complete_thinking_session_def Let_def AList.update_conv' conclusionThought_def)
qed

theorem complete_thinking_session_appends_conclusion_witness:
  "map_of (route_run exRouteOps []) ''s'' = Some exRouteSession
   \<and> truthy (Some ''done'')
   \<and> map_of (snd (complete_thinking_session (exEnv ''b0'' ''t3'' 4) ''s'' (Some ''done'')
         (route_run exRouteOps []))) ''s'' =
       Some (exRouteSession\<lparr>s_thoughts :=
               s_thoughts exRouteSession @ [exThought ''t3'' 3 ''done'' Conclusion ''m1'' 4],
             s_status := Completed, s_updatedAt := 4\<rparr>)
   \<and> \<not> truthy None
   \<and> map_of (snd (complete_thinking_session (exEnv ''b0'' ''t3'' 4) ''s'' None
         (route_run exRouteOps []))) ''s'' =
       Some (exRouteSession\<lparr>s_status := Completed, s_updatedAt := 4\<rparr>)"
proof -
  have h: "map_of (route_run exRouteOps []) ''s'' = Some exRouteSession" by code_simp
  have t: "conclusionThought (exEnv ''b0'' ''t3'' 4) ''done'' exRouteSession =
      exThought ''t3'' 3 ''done'' Conclusion ''m1'' 4"
    by code_simp
  have d: "date_touch (exEnv ''b0'' ''t3'' 4) = 4" by (simp add: exEnv_def)
  from complete_thinking_session_appends_conclusion [OF h, of "Some ''done''" "exEnv ''b0'' ''t3'' 4"]
  have c1: "map_of (snd (complete_thinking_session (exEnv ''b0'' ''t3'' 4) ''s'' (Some ''done'')
         (route_run exRouteOps []))) ''s'' =
       Some (exRouteSession\<lparr>s_thoughts :=
               s_thoughts exRouteSession @ [exThought ''t3'' 3 ''done'' Conclusion ''m1'' 4],
             s_status := Completed, s_updatedAt := 4\<rparr>)"
    by (simp add: t d)
  from complete_thinking_session_appends_conclusion [OF h, of None "exEnv ''b0'' ''t3'' 4"]
  have c2: "map_of (snd (complete_thinking_session (exEnv ''b0'' ''t3'' 4) ''s'' None
         (route_run exRouteOps []))) ''s'' =
       Some (exRouteSession\<lparr>s_status := Completed, s_updatedAt := 4\<rparr>)"
    by (simp add: d)
  from h c1 c2 show ?thesis by simp
qed

text \<open>
  The handler's own append, \<open>sequential_thinking\<close>, stores the caller's \<open>thoughtNumber\<close> as
  the step number.
\<close>

lemma sequential_thinking_stepNumber:
  "q_stepNumber (fst (sequential_thinking env args st)) = a_thoughtNumber args"
  by (simp add: sequential_thinking_def Let_def split: prod.splits)

section \<open>Completing a session (second copy of the handler)\<close>

lemma singleBranch_app_newSession: "singleBranch (app_newSession env sid problem)"
  by (simp add: singleBranch_def app_newSession_def)

lemma app_getOrCreateSession_all:
  assumes "allStored singleBranch st"
    and "app_getOrCreateSession env sessionId problem st = (key, s0, st1)"
  shows "allStored singleBranch st1 \<and> singleBranch s0"
proof (cases "case sessionId of None \<Rightarrow> None | Some k \<Rightarrow> if k = [] then None else map_of st k")
  case None
  with assms(2) have "st1 = AList.update key s0 st"
    and "s0 = app_newSession env key problem"
    by (auto simp: app_getOrCreateSession_def Let_def)
  with assms(1) show ?thesis
    by (simp add: allStored_update singleBranch_app_newSession)
next
  case (Some s)
  with assms(2) have "st1 = st" "s0 = s" by (auto simp: app_getOrCreateSession_def)
  moreover from Some have "\<exists>k. map_of st k = Some s"
    by (auto split: option.splits if_splits)
  ultimately show ?thesis using assms(1) by (auto simp: allStored_def)
qed

lemma app_sequential_thinking_all:
  assumes "allStored singleBranch st"
  shows "allStored singleBranch (snd (app_sequential_thinking env args st))"
proof -
  obtain key s0 st1 where
    g: "app_getOrCreateSession env (a_sessionId args) (Some (a_thought args)) st = (key, s0, st1)"
    by (metis prod_cases3)
  from app_getOrCreateSession_all [OF assms g]
  have "allStored singleBranch st1" and "singleBranch s0" by auto
  then show ?thesis
    by (simp add: app_sequential_thinking_def g Let_def allStored_update singleBranch_def)
qed

lemma app_switch_thinking_branch_all:
  assumes "allStored singleBranch st"
  shows "allStored singleBranch (snd (app_switch_thinking_branch sessionId branchName st))"
proof (cases "map_of st sessionId")
  case None
  with assms show ?thesis by (simp add: app_switch_thinking_branch_def)
next
  case (Some s)
  with assms have sb: "singleBranch s" by (auto simp: allStored_def)
  show ?thesis
  proof (cases "find (\<lambda>b. b_name b = branchName) (s_branches s)")
    case None
    with assms Some show ?thesis by (simp add: app_switch_thinking_branch_def)
  next
    case (Some b)
    then have "b \<in> set (s_branches s)" by (auto dest: find_Some_split)
    then have "b_id b \<in> set (map b_id (s_branches s))" by simp
    with sb have "b_id b = s_activeBranchId s" by (simp add: singleBranch_def)
    with sb have "singleBranch (s\<lparr>s_activeBranchId := b_id b\<rparr>)"
      by (simp add: singleBranch_def)
    with assms Some \<open>map_of st sessionId = Some s\<close> show ?thesis
      by (simp add: app_switch_thinking_branch_def allStored_update)
  qed
qed

lemma app_complete_thinking_session_all:
  assumes "allStored singleBranch st"
  shows "allStored singleBranch (snd (app_complete_thinking_session env sessionId finalConclusion st))"
proof (cases "map_of st sessionId")
  case None
  with assms show ?thesis by (simp add: app_complete_thinking_session_def)
next
  case (Some s)
  with assms have "singleBranch s" by (auto simp: allStored_def)
  with assms Some show ?thesis
    by (simp add: app_complete_thinking_session_def Let_def allStored_update singleBranch_def)
qed

lemma app_run_all:
  "allStored singleBranch st \<Longrightarrow> allStored singleBranch (app_run ops st)"
proof (induction ops arbitrary: st)
  case Nil
  then show ?case by simp
next
  case (Cons op ops)
  have "allStored singleBranch (app_exec op st)"
    using Cons.prems
    by (cases op)
      (simp_all add: app_sequential_thinking_all app_switch_thinking_branch_all
        app_complete_thinking_session_all)
  then show ?case by (simp add: Cons.IH)
qed

text \<open>
  The same completion in the second copy of the handler, which leaves \<open>updatedAt\<close> as it
  is.
\<close>

lemma app_complete_thinking_session_appends_conclusion:
  assumes "map_of (app_run ops []) sessionId = Some s"
  shows "map_of (snd (app_complete_thinking_session env sessionId finalConclusion (app_run ops [])))
           sessionId =
         Some (if truthy finalConclusion
               then s\<lparr>s_thoughts :=
                        s_thoughts s @ [conclusionThought env (strOr finalConclusion []) s],
                      s_status := Completed\<rparr>
               else s\<lparr>s_status := Completed\<rparr>)"
proof -
  have "allStored singleBranch (app_run ops [])"
    by (rule app_run_all) (simp add: allStored_def)
  with assms have "singleBranch s" by (auto simp: allStored_def)
  then have "length (onBranch (s_activeBranchId s) s) = length (s_thoughts s)"
    by (simp add: singleBranch_onBranch)
  with assms show ?thesis
    by (simp add: app_complete_thinking_session_def Let_def AList.update_conv' conclusionThought_def)
qed

end
